theory Spec2Isabelle
  imports Main "HOL-Library.Word"
begin

section \<open>The platform as seen from wifi.ino\<close>

text \<open>
  The firmware file \<^verbatim>\<open>fw/bno055_steps/wifi.ino\<close> talks to the ESP8266 libraries
  (\<^verbatim>\<open>WiFi\<close>, \<^verbatim>\<open>HTTPClient\<close>, \<^verbatim>\<open>BearSSL::WiFiClientSecure\<close>, \<^verbatim>\<open>Serial\<close>, \<^verbatim>\<open>delay\<close>),
  to the timer register \<^verbatim>\<open>T1C\<close> and to the routine \<^verbatim>\<open>sos_mode\<close> defined elsewhere.
  Every call the file makes to one of them is recorded, in program order, as an
  event of the trace; what the outside answers is given by an environment.
\<close>

text \<open>The values of \<^verbatim>\<open>wl_status_t\<close> of the ESP8266 WiFi library.\<close>

datatype wl_status =
    WL_NO_SHIELD
  | WL_IDLE_STATUS
  | WL_NO_SSID_AVAIL
  | WL_SCAN_COMPLETED
  | WL_CONNECTED
  | WL_CONNECT_FAILED
  | WL_CONNECTION_LOST
  | WL_WRONG_PASSWORD
  | WL_DISCONNECTED

text \<open>
  One constructor for each external call written in the file. The last two are
  ghost events: they mark the entry into the one-argument \<^verbatim>\<open>send_data\<close> and its
  return with a status code, so that calls of the single-shot sender can be counted
  and their results read off the trace.
\<close>

datatype event =
    Serial_print string
  | Serial_println string
  | Serial_printf string int string
  | Delay nat
  | WiFi_mode_STA
  | WiFi_begin string string
  | WiFi_status
  | Sos_mode
  | New_WiFiClientSecure
  | New_HTTPClient
  | Client_setInsecure
  | Client_setTimeout nat
  | Https_begin string
  | Https_addHeader string string
  | Https_POST string
  | Https_getString
  | Https_end
  | Enter_send_data string
  | Leave_send_data int

text \<open>
  The environment answers the calls that return a value: the \<open>k\<close>-th call of
  \<^verbatim>\<open>WiFi.status()\<close>, of \<^verbatim>\<open>https.begin\<close>, of \<^verbatim>\<open>https.POST\<close> and of \<^verbatim>\<open>https.getString\<close>
  (counted from 0). The body of \<^verbatim>\<open>sos_mode\<close> is not part of the file: the
  environment says for each invocation whether control comes back from it.
\<close>

record env =
  wifi_status_at :: "nat \<Rightarrow> wl_status"
  https_begin_at :: "nat \<Rightarrow> bool"
  https_POST_at :: "nat \<Rightarrow> int"
  https_getString_at :: "nat \<Rightarrow> string"
  sos_mode_returns_at :: "nat \<Rightarrow> bool"

record world =
  T1C :: "32 word"
  trace :: "event list"

text \<open>A call either returns a value, or control never comes back (it is stuck in \<^verbatim>\<open>sos_mode\<close>).\<close>

datatype 'a outcome = Returns 'a world | Hangs world

fun world_of :: "'a outcome \<Rightarrow> world" where
  "world_of (Returns x w) = w"
| "world_of (Hangs w) = w"

fun returns :: "'a outcome \<Rightarrow> bool" where
  "returns (Returns x w) = True"
| "returns (Hangs w) = False"

definition emit :: "event \<Rightarrow> world \<Rightarrow> world" where
  "emit e w = w\<lparr>trace := trace w @ [e]\<rparr>"

fun is_begin :: "event \<Rightarrow> bool" where
  "is_begin (Https_begin u) = True"
| "is_begin e = False"

fun is_POST :: "event \<Rightarrow> bool" where
  "is_POST (Https_POST p) = True"
| "is_POST e = False"

fun is_Delay :: "event \<Rightarrow> bool" where
  "is_Delay (Delay ms) = True"
| "is_Delay e = False"

fun is_Enter :: "event \<Rightarrow> bool" where
  "is_Enter (Enter_send_data p) = True"
| "is_Enter e = False"

fun is_Leave :: "event \<Rightarrow> bool" where
  "is_Leave (Leave_send_data c) = True"
| "is_Leave e = False"

definition count_ev :: "(event \<Rightarrow> bool) \<Rightarrow> event list \<Rightarrow> nat" where
  "count_ev P es = length (filter P es)"

text \<open>The status codes with which single-shot calls have returned, in order.\<close>

fun returned :: "event list \<Rightarrow> int list" where
  "returned [] = []"
| "returned (Leave_send_data c # es) = c # returned es"
| "returned (e # es) = returned es"

text \<open>
  The events of a trace that lie outside the single-shot calls, that is, outside
  every stretch from an \<open>Enter_send_data\<close> to the next \<open>Leave_send_data\<close> (or to the
  end of the trace, when the call never returns). The flag says whether the trace
  starts inside such a call. Applied to what the retrying \<^verbatim>\<open>send_data\<close> adds to the
  trace, these are the events of the retry loop itself.
\<close>

fun outside_calls :: "bool \<Rightarrow> event list \<Rightarrow> event list" where
  "outside_calls inside [] = []"
| "outside_calls inside (Enter_send_data p # es) = outside_calls True es"
| "outside_calls inside (Leave_send_data c # es) = outside_calls False es"
| "outside_calls inside (e # es) =
     (if inside then outside_calls inside es else e # outside_calls inside es)"

subsection \<open>External calls that return a value\<close>

definition WiFi_status_call :: "env \<Rightarrow> world \<Rightarrow> wl_status \<times> world" where
  "WiFi_status_call E w =
     (wifi_status_at E (count_ev (\<lambda>e. e = WiFi_status) (trace w)), emit WiFi_status w)"

definition https_begin :: "env \<Rightarrow> string \<Rightarrow> world \<Rightarrow> bool \<times> world" where
  "https_begin E url w =
     (https_begin_at E (count_ev is_begin (trace w)), emit (Https_begin url) w)"

definition https_POST :: "env \<Rightarrow> string \<Rightarrow> world \<Rightarrow> int \<times> world" where
  "https_POST E body w =
     (https_POST_at E (count_ev is_POST (trace w)), emit (Https_POST body) w)"

definition https_getString :: "env \<Rightarrow> world \<Rightarrow> string \<times> world" where
  "https_getString E w =
     (https_getString_at E (count_ev (\<lambda>e. e = Https_getString) (trace w)),
      emit Https_getString w)"

text \<open>
  \<^verbatim>\<open>sos_mode()\<close> is called by the file and defined elsewhere in the firmware. The call is
  recorded, and the environment decides whether control comes back from it; the
  routine is taken to leave \<^verbatim>\<open>T1C\<close> alone.
\<close>

definition sos_mode :: "env \<Rightarrow> world \<Rightarrow> unit outcome" where
  "sos_mode E w =
     (if sos_mode_returns_at E (count_ev (\<lambda>e. e = Sos_mode) (trace w))
      then Returns () (emit Sos_mode w)
      else Hangs (emit Sos_mode w))"

section \<open>wifi.ino\<close>

definition ssid :: string where
  "ssid = ''DataCity-802 - 2.4GHz''"

definition password :: string where
  "password = ''6340631697''"

subsection \<open>\<^verbatim>\<open>bool is_bad_http_code(int httpCode)\<close>\<close>

text \<open>
  Status codes are \<^verbatim>\<open>int\<close> in the source. The file only compares them with 200 and
  300 and never computes with them, so they are integers here.
\<close>

definition is_bad_http_code :: "int \<Rightarrow> bool" where
  "is_bad_http_code httpCode \<longleftrightarrow> httpCode < 200 \<or> 300 \<le> httpCode"

subsection \<open>\<^verbatim>\<open>bool initialize_wifi()\<close>\<close>

text \<open>
  The \<^verbatim>\<open>while\<close> loop of lines 17 to 25, started with the current value of
  \<^verbatim>\<open>attempts\<close>. The counter is an \<^verbatim>\<open>unsigned int\<close> that never exceeds 11, so it is a
  natural number here.
\<close>

function initialize_wifi_loop :: "env \<Rightarrow> nat \<Rightarrow> world \<Rightarrow> world" where
  "initialize_wifi_loop E attempts w =
     (case WiFi_status_call E w of (st, w1) \<Rightarrow>
        if st \<noteq> WL_CONNECTED then
          (let w2 = emit (Serial_print ''.'') w1;
               w3 = emit (Delay 1000) w2;
               attempts' = attempts + 1
           in if attempts' > 10
              then emit (Serial_println ''Failed to connect to WiFi'') w3
              else initialize_wifi_loop E attempts' w3)
        else w1)"
  by pat_completeness auto
termination
  by (relation "measure (\<lambda>(E, attempts, w). 11 - attempts)") auto

definition initialize_wifi :: "env \<Rightarrow> world \<Rightarrow> bool \<times> world" where
  "initialize_wifi E w =
     (let w1 = emit WiFi_mode_STA w;
          w2 = emit (WiFi_begin ssid password) w1;
          w3 = emit (Serial_print ''Connecting to WiFi ..'') w2;
          w4 = initialize_wifi_loop E 0 w3
      in case WiFi_status_call E w4 of (st, w5) \<Rightarrow>
           if st = WL_CONNECTED
           then (True, emit (Serial_println ''Connected to the WiFi network'') w5)
           else (False, emit (Serial_println ''Failed to connect to WiFi'') w5))"

subsection \<open>\<^verbatim>\<open>int send_data(String post_data)\<close>\<close>

text \<open>
  The single-shot sender, lines 47 to 77. After the call of \<^verbatim>\<open>sos_mode\<close> on line 51
  there is no \<^verbatim>\<open>return\<close>: when control comes back, execution goes on with line 53.
\<close>

definition backend_url :: string where
  "backend_url = ''https://capstone-backend-f6qu.onrender.com/api/send_recording''"

definition send_data :: "env \<Rightarrow> string \<Rightarrow> world \<Rightarrow> int outcome" where
  "send_data E post_data w0 =
     (let w = emit (Enter_send_data post_data) w0;
          httpCode = - 1
      in case (if T1C w \<noteq> 0
               then sos_mode E (emit (Serial_println ''ERROR: INTERRUPT WAS NOT DISABLED'') w)
               else Returns () w) of
           Hangs wh \<Rightarrow> Hangs wh
         | Returns u w1 \<Rightarrow>
            (let w2 = emit New_WiFiClientSecure w1;
                 w2' = emit New_HTTPClient w2;
                 w3 = emit Client_setInsecure w2';
                 w4 = emit (Client_setTimeout 50000) w3
             in case https_begin E backend_url w4 of (ok, w5) \<Rightarrow>
                  if ok then
                    (let w6 = emit (Delay 1000) w5;
                         w7 = emit (Https_addHeader ''Content-Type'' ''application/json'') w6
                     in case https_POST E post_data w7 of (httpCode, w8) \<Rightarrow>
                        case https_getString E w8 of (payload, w9) \<Rightarrow>
                          (let w10 = emit Https_end w9;
                               w11 = emit (Serial_printf (''[HTTPS] POST Response: (%d) %s'' @ [CHR 0x0A])
                                             httpCode ''Message:'') w10;
                               w12 = emit (Serial_println payload) w11;
                               w13 = (if is_bad_http_code httpCode
                                      then emit (Serial_println ''ERROR: POST REQUEST FAILED'') w12
                                      else w12)
                           in Returns httpCode (emit (Leave_send_data httpCode) w13)))
                  else
                    (case sos_mode E (emit (Serial_println ''[HTTPS] Unable to connect'') w5) of
                       Hangs wh \<Rightarrow> Hangs wh
                     | Returns u' w6 \<Rightarrow> Returns httpCode (emit (Leave_send_data httpCode) w6))))"

subsection \<open>\<^verbatim>\<open>void send_data(String post_data, uint8_t max_attempts)\<close>\<close>

text \<open>
  The overload with two arguments, lines 36 to 44, is named \<open>send_data_max_attempts\<close>
  here. First the \<^verbatim>\<open>while\<close> loop of lines 39 to 43, started with the current
  \<^verbatim>\<open>httpCode\<close> and \<^verbatim>\<open>attempts\<close>; \<^verbatim>\<open>attempts\<close> and \<^verbatim>\<open>max_attempts\<close> are \<^verbatim>\<open>uint8_t\<close>.
\<close>

function send_data_loop ::
  "env \<Rightarrow> string \<Rightarrow> 8 word \<Rightarrow> int \<Rightarrow> 8 word \<Rightarrow> world \<Rightarrow> unit outcome" where
  "send_data_loop E post_data max_attempts httpCode attempts w =
     (if is_bad_http_code httpCode \<and> attempts < max_attempts then
        (let w1 = emit (Serial_println (CHR 0x0A # ''Retrying...'')) w;
             attempts' = attempts + 1
         in case send_data E post_data w1 of
              Hangs wh \<Rightarrow> Hangs wh
            | Returns httpCode' w2 \<Rightarrow>
                send_data_loop E post_data max_attempts httpCode' attempts' w2)
      else Returns () w)"
  by pat_completeness auto
termination
proof (relation "measure (\<lambda>(E, p, m, c, a, w). unat m - unat a)")
  show "wf (measure (\<lambda>(E, p, m, c, a, w). unat m - unat a))"
    by simp
next
  fix E :: env and post_data :: string and max_attempts :: "8 word" and httpCode :: int
    and attempts :: "8 word" and w w1 :: world and attempts' :: "8 word" and x1 :: int and x2 :: world
  assume "is_bad_http_code httpCode \<and> attempts < max_attempts" and a': "attempts' = attempts + 1"
  then have lt: "unat attempts < unat max_attempts"
    by (simp add: word_less_nat_alt)
  have "unat max_attempts < 256"
    using unsigned_less [of max_attempts, where ?'a = nat] by simp
  with lt have "unat attempts + 1 < 256"
    by simp
  then have "unat (attempts + 1) = unat attempts + 1"
    by (simp add: unat_word_ariths)
  with lt a'
  show "((E, post_data, max_attempts, x1, attempts', x2),
         (E, post_data, max_attempts, httpCode, attempts, w))
        \<in> measure (\<lambda>(E, p, m, c, a, w). unat m - unat a)"
    by simp
qed

definition send_data_max_attempts :: "env \<Rightarrow> string \<Rightarrow> 8 word \<Rightarrow> world \<Rightarrow> unit outcome" where
  "send_data_max_attempts E post_data max_attempts w =
     (case send_data E post_data w of
        Hangs wh \<Rightarrow> Hangs wh
      | Returns httpCode w1 \<Rightarrow> send_data_loop E post_data max_attempts httpCode 1 w1)"

section \<open>Observations on traces\<close>

text \<open>The events a call has added to the trace.\<close>

definition new_events :: "world \<Rightarrow> world \<Rightarrow> event list" where
  "new_events w w' = drop (length (trace w)) (trace w')"

text \<open>
  The invariant of the retry loop, for a run started with status \<open>c\<close> and counter
  \<open>a\<close> that added the events \<open>es\<close>: the number of single-shot calls is bounded,
  a call is made only after a bad status, every status but the last is bad, and a
  run that returns has either used up the attempts or ended on a status that is not bad.
\<close>

definition retry_inv :: "8 word \<Rightarrow> int \<Rightarrow> 8 word \<Rightarrow> unit outcome \<Rightarrow> event list \<Rightarrow> bool" where
  "retry_inv m c a out es \<longleftrightarrow>
     count_ev is_Enter es \<le> unat m - unat a
     \<and> (0 < count_ev is_Enter es \<longrightarrow> is_bad_http_code c)
     \<and> (\<forall>x \<in> set (butlast (returned es)). is_bad_http_code x)
     \<and> (if returns out
        then length (returned es) = count_ev is_Enter es
             \<and> (count_ev is_Enter es = unat m - unat a \<or> \<not> is_bad_http_code (last (c # returned es)))
        else Suc (length (returned es)) = count_ev is_Enter es)"

text \<open>
  The invariant of the polling loop, for a run started with counter \<open>a\<close> at the
  reading number \<open>n0\<close>: every delay is one second long and follows a reading that
  was not connected, and the loop has ended either on a connected reading or by the
  \<^verbatim>\<open>break\<close> when the counter reached 11.
\<close>

definition poll_inv :: "env \<Rightarrow> nat \<Rightarrow> nat \<Rightarrow> event list \<Rightarrow> bool" where
  "poll_inv E n0 a es \<longleftrightarrow>
     (\<forall>i < count_ev is_Delay es. wifi_status_at E (n0 + i) \<noteq> WL_CONNECTED)
     \<and> (\<forall>e \<in> set es. is_Delay e \<longrightarrow> e = Delay 1000)
     \<and> (count_ev (\<lambda>e. e = WiFi_status) es = Suc (count_ev is_Delay es)
          \<and> wifi_status_at E (n0 + count_ev is_Delay es) = WL_CONNECTED
          \<and> a + count_ev is_Delay es \<le> 10
        \<or> count_ev (\<lambda>e. e = WiFi_status) es = count_ev is_Delay es
          \<and> a + count_ev is_Delay es = 11)"

text \<open>Environments and start states of the scenarios.\<close>

definition wifi_readings :: "(nat \<Rightarrow> wl_status) \<Rightarrow> env" where
  "wifi_readings f =
     \<lparr>wifi_status_at = f, https_begin_at = (\<lambda>k. True), https_POST_at = (\<lambda>k. 200),
      https_getString_at = (\<lambda>k. []), sos_mode_returns_at = (\<lambda>k. True)\<rparr>"

definition start_world :: "32 word \<Rightarrow> world" where
  "start_world t = \<lparr>T1C = t, trace = []\<rparr>"

definition server_answers :: "(nat \<Rightarrow> int) \<Rightarrow> env" where
  "server_answers f =
     \<lparr>wifi_status_at = (\<lambda>k. WL_CONNECTED), https_begin_at = (\<lambda>k. True), https_POST_at = f,
      https_getString_at = (\<lambda>k. []), sos_mode_returns_at = (\<lambda>k. True)\<rparr>"

text \<open>
  Modelled from the spec: the routine \<^verbatim>\<open>sos_mode\<close>, which \<^verbatim>\<open>wifi.ino\<close> calls and the
  firmware defines in another file. The spec describes it as the error-signal
  routine for fatal conditions, a blocking alarm after which the caller gets no
  chance to recover (error signal, then halt or loop forever). So control does not
  come back from any call of it: \<open>sos_blocks E\<close> is the environment \<open>E\<close> with such a
  \<^verbatim>\<open>sos_mode\<close>.
\<close>

definition sos_blocks :: "env \<Rightarrow> env" where
  "sos_blocks E = E\<lparr>sos_mode_returns_at := (\<lambda>k. False)\<rparr>"

definition unreachable :: "env \<Rightarrow> env" where
  "unreachable E = E\<lparr>https_begin_at := (\<lambda>k. False)\<rparr>"

declare initialize_wifi_loop.simps [simp del]

declare send_data_loop.simps [simp del]

section \<open>Basic facts\<close>

lemma trace_emit: "trace (emit e w) = trace w @ [e]"
  by (simp add: emit_def)

lemma T1C_emit: "T1C (emit e w) = T1C w"
  by (simp add: emit_def)

lemma count_ev_Nil: "count_ev P [] = 0"
  by (simp add: count_ev_def)

lemma count_ev_Cons: "count_ev P (e # es) = (if P e then Suc (count_ev P es) else count_ev P es)"
  by (simp add: count_ev_def)

lemma count_ev_append: "count_ev P (xs @ ys) = count_ev P xs + count_ev P ys"
  by (simp add: count_ev_def)

lemma returned_append: "returned (xs @ ys) = returned xs @ returned ys"
  by (induction xs rule: returned.induct) simp_all

lemmas ev_simps = trace_emit T1C_emit count_ev_Nil count_ev_Cons count_ev_append returned_append

lemma T1C_sos_mode: "T1C (world_of (sos_mode E w)) = T1C w"
  by (simp add: sos_mode_def T1C_emit)

lemma T1C_send_data: "T1C (world_of (send_data E p w)) = T1C w"
  by (simp add: send_data_def sos_mode_def https_begin_def https_POST_def https_getString_def
      Let_def T1C_emit split: outcome.splits prod.splits)

lemma send_data_trace:
  "\<exists>es. trace (world_of (send_data E p w)) = trace w @ Enter_send_data p # es
     \<and> count_ev is_Enter es = 0
     \<and> returned es = (case send_data E p w of Returns c w' \<Rightarrow> [c] | Hangs w' \<Rightarrow> [])"
  by (simp add: send_data_def sos_mode_def https_begin_def https_POST_def https_getString_def
      Let_def ev_simps split: outcome.splits prod.splits)

lemma unat_succ_below:
  fixes a m :: "8 word"
  assumes "a < m"
  shows "unat (a + 1) = Suc (unat a)" and "unat a < unat m"
proof -
  from assms show lt: "unat a < unat m"
    by (simp add: word_less_nat_alt)
  have "unat m < 256"
    using unsigned_less [of m, where ?'a = nat] by simp
  with lt have "unat a + 1 < 256"
    by simp
  then show "unat (a + 1) = Suc (unat a)"
    by (simp add: unat_word_ariths)
qed

lemma T1C_send_data_loop: "T1C (world_of (send_data_loop E p m c a w)) = T1C w"
proof (induction E p m c a w rule: send_data_loop.induct)
  case (1 E p m c a w)
  show ?case
  proof (cases "is_bad_http_code c \<and> a < m")
    case False
    then show ?thesis
      by (subst send_data_loop.simps) auto
  next
    case True
    let ?w1 = "emit (Serial_println (CHR 0x0A # ''Retrying...'')) w"
    show ?thesis
    proof (cases "send_data E p ?w1")
      case (Hangs wh)
      then have "T1C wh = T1C ?w1"
        using T1C_send_data [of E p ?w1] by simp
      with True Hangs show ?thesis
        by (subst send_data_loop.simps) (simp add: T1C_emit)
    next
      case (Returns c' w2)
      then have "T1C w2 = T1C ?w1"
        using T1C_send_data [of E p ?w1] by simp
      moreover have "T1C (world_of (send_data_loop E p m c' (a + 1) w2)) = T1C w2"
        using "1.IH" [OF True refl refl Returns] .
      ultimately show ?thesis
        using True Returns by (subst send_data_loop.simps) (simp add: T1C_emit)
    qed
  qed
qed

lemma send_data_loop_trace:
  "\<exists>es. trace (world_of (send_data_loop E p m c a w)) = trace w @ es
     \<and> retry_inv m c a (send_data_loop E p m c a w) es"
proof (induction E p m c a w rule: send_data_loop.induct)
  case (1 E p m c a w)
  show ?case
  proof (cases "is_bad_http_code c \<and> a < m")
    case False
    then have "send_data_loop E p m c a w = Returns () w"
      by (subst send_data_loop.simps) auto
    moreover from False have "retry_inv m c a (Returns () w) []"
      by (auto simp: retry_inv_def count_ev_Nil word_less_nat_alt)
    ultimately show ?thesis by simp
  next
    case True
    let ?r = "Serial_println (CHR 0x0A # ''Retrying...'')"
    let ?w1 = "emit ?r w"
    from True have "a < m" by simp
    then have a1: "unat (a + 1) = Suc (unat a)" and lt: "unat a < unat m"
      by (rule unat_succ_below)+
    from send_data_trace [of E p ?w1] obtain es1 where
      tr1: "trace (world_of (send_data E p ?w1)) = trace ?w1 @ Enter_send_data p # es1"
      and en1: "count_ev is_Enter es1 = 0"
      and rt1: "returned es1 = (case send_data E p ?w1 of Returns c w' \<Rightarrow> [c] | Hangs w' \<Rightarrow> [])"
      by blast
    show ?thesis
    proof (cases "send_data E p ?w1")
      case (Hangs wh)
      with True have out: "send_data_loop E p m c a w = Hangs wh"
        by (subst send_data_loop.simps) simp
      from Hangs tr1 have "trace wh = trace w @ (?r # Enter_send_data p # es1)"
        by (simp add: trace_emit)
      moreover from Hangs rt1 en1 True lt
      have "retry_inv m c a (Hangs wh) (?r # Enter_send_data p # es1)"
        by (simp add: retry_inv_def count_ev_Cons)
      ultimately show ?thesis
        using out by auto
    next
      case (Returns c' w2)
      let ?out = "send_data_loop E p m c' (a + 1) w2"
      from True Returns have out: "send_data_loop E p m c a w = ?out"
        by (subst send_data_loop.simps) simp
      from "1.IH" [OF True refl refl Returns] obtain es2 where
        tr2: "trace (world_of ?out) = trace w2 @ es2" and inv2: "retry_inv m c' (a + 1) ?out es2"
        by blast
      from Returns tr1 tr2
      have "trace (world_of ?out) = trace w @ (?r # Enter_send_data p # es1 @ es2)"
        by (simp add: trace_emit)
      moreover have "retry_inv m c a ?out (?r # Enter_send_data p # es1 @ es2)"
      proof -
        from Returns rt1 have r1: "returned es1 = [c']" by simp
        have bad_c': "returned es2 \<noteq> [] \<Longrightarrow> is_bad_http_code c'"
          using inv2 by (auto simp: retry_inv_def split: if_splits)
        have "\<forall>x \<in> set (butlast (c' # returned es2)). is_bad_http_code x"
          using inv2 bad_c' by (auto simp: retry_inv_def)
        with inv2 True lt a1 en1 r1 show ?thesis
          by (auto simp: retry_inv_def count_ev_Cons count_ev_append returned_append
              split: if_splits)
      qed
      ultimately show ?thesis
        using out by auto
    qed
  qed
qed

lemma T1C_initialize_wifi_loop: "T1C (initialize_wifi_loop E a w) = T1C w"
proof (induction E a w rule: initialize_wifi_loop.induct)
  case (1 E a w)
  show ?case
    using "1.IH"
    by (subst initialize_wifi_loop.simps)
      (simp add: WiFi_status_call_def Let_def T1C_emit)
qed

lemma initialize_wifi_loop_trace:
  "a \<le> 10 \<Longrightarrow>
   \<exists>es. trace (initialize_wifi_loop E a w) = trace w @ es
     \<and> poll_inv E (count_ev (\<lambda>e. e = WiFi_status) (trace w)) a es"
proof (induction E a w rule: initialize_wifi_loop.induct)
  case (1 E a w)
  let ?n0 = "count_ev (\<lambda>e. e = WiFi_status) (trace w)"
  let ?st = "wifi_status_at E ?n0"
  let ?w1 = "emit WiFi_status w"
  let ?w3 = "emit (Delay 1000) (emit (Serial_print ''.'') ?w1)"
  show ?case
  proof (cases "?st = WL_CONNECTED")
    case True
    then have "initialize_wifi_loop E a w = ?w1"
      by (subst initialize_wifi_loop.simps) (simp add: WiFi_status_call_def)
    moreover from True "1.prems" have "poll_inv E ?n0 a [WiFi_status]"
      by (simp add: poll_inv_def count_ev_Cons count_ev_Nil)
    ultimately show ?thesis
      by (simp add: trace_emit)
  next
    case False
    show ?thesis
    proof (cases "a = 10")
      case True
      let ?f = "Serial_println ''Failed to connect to WiFi''"
      from True False have "initialize_wifi_loop E a w = emit ?f ?w3"
        by (subst initialize_wifi_loop.simps) (simp add: WiFi_status_call_def Let_def)
      moreover from True False
      have "poll_inv E ?n0 a [WiFi_status, Serial_print ''.'', Delay 1000, ?f]"
        by (simp add: poll_inv_def count_ev_Cons count_ev_Nil)
      ultimately show ?thesis
        by (simp add: trace_emit)
    next
      case a: False
      with "1.prems" have lt: "a + 1 \<le> 10" by simp
      from a False "1.prems"
      have unf: "initialize_wifi_loop E a w = initialize_wifi_loop E (a + 1) ?w3"
        by (subst initialize_wifi_loop.simps) (simp add: WiFi_status_call_def Let_def)
      have "\<exists>es. trace (initialize_wifi_loop E (a + 1) ?w3) = trace ?w3 @ es
              \<and> poll_inv E (count_ev (\<lambda>e. e = WiFi_status) (trace ?w3)) (a + 1) es"
        using "1.IH" [of ?st ?w1 "emit (Serial_print ''.'') ?w1" ?w3 "a + 1"]
          False lt
        by (simp add: WiFi_status_call_def)
      then obtain es where
        tr: "trace (initialize_wifi_loop E (a + 1) ?w3) = trace ?w3 @ es"
        and inv: "poll_inv E (Suc ?n0) (a + 1) es"
        by (auto simp: trace_emit count_ev_append count_ev_Cons count_ev_Nil)
      have "poll_inv E ?n0 a (WiFi_status # Serial_print ''.'' # Delay 1000 # es)"
      proof -
        have "\<forall>i < Suc (count_ev is_Delay es). wifi_status_at E (?n0 + i) \<noteq> WL_CONNECTED"
        proof (intro allI impI)
          fix i assume "i < Suc (count_ev is_Delay es)"
          show "wifi_status_at E (?n0 + i) \<noteq> WL_CONNECTED"
          proof (cases i)
            case 0
            with False show ?thesis by simp
          next
            case (Suc k)
            with \<open>i < Suc (count_ev is_Delay es)\<close> inv show ?thesis
              by (simp add: poll_inv_def)
          qed
        qed
        with inv show ?thesis
          by (auto simp: poll_inv_def count_ev_Cons)
      qed
      with tr unf show ?thesis
        by (simp add: trace_emit)
    qed
  qed
qed

lemma initialize_wifi_events:
  assumes "initialize_wifi E w = (r, w')"
  shows "\<exists>es. new_events w w' =
            [WiFi_mode_STA, WiFi_begin ssid password, Serial_print ''Connecting to WiFi ..'']
            @ es @ [WiFi_status, Serial_println (if r then ''Connected to the WiFi network''
                                                  else ''Failed to connect to WiFi'')]
          \<and> trace w' = trace w @ new_events w w'
          \<and> poll_inv E (count_ev (\<lambda>e. e = WiFi_status) (trace w)) 0 es
          \<and> r = (wifi_status_at E (count_ev (\<lambda>e. e = WiFi_status) (trace w)
                    + count_ev (\<lambda>e. e = WiFi_status) es) = WL_CONNECTED)"
proof -
  let ?S = "\<lambda>e. e = WiFi_status"
  let ?w3 = "emit (Serial_print ''Connecting to WiFi ..'')
               (emit (WiFi_begin ssid password) (emit WiFi_mode_STA w))"
  let ?w4 = "initialize_wifi_loop E 0 ?w3"
  from initialize_wifi_loop_trace [of 0 E ?w3] obtain es where
    tr4: "trace ?w4 = trace ?w3 @ es"
    and inv: "poll_inv E (count_ev ?S (trace ?w3)) 0 es"
    by auto
  have n3: "count_ev ?S (trace ?w3) = count_ev ?S (trace w)"
    by (simp add: ev_simps)
  let ?n4 = "count_ev ?S (trace w) + count_ev ?S es"
  let ?msg = "Serial_println (if r then ''Connected to the WiFi network''
                              else ''Failed to connect to WiFi'')"
  have n4: "count_ev ?S (trace ?w4) = ?n4"
    by (simp add: tr4 ev_simps)
  have unf: "initialize_wifi E w =
      (if wifi_status_at E ?n4 = WL_CONNECTED
       then (True, emit (Serial_println ''Connected to the WiFi network'') (emit WiFi_status ?w4))
       else (False, emit (Serial_println ''Failed to connect to WiFi'') (emit WiFi_status ?w4)))"
    by (simp add: initialize_wifi_def Let_def WiFi_status_call_def n4)
  from assms have r: "r = (wifi_status_at E ?n4 = WL_CONNECTED)"
    unfolding unf by (simp split: if_splits)
  from assms have "w' = emit ?msg (emit WiFi_status ?w4)"
    unfolding unf by (simp split: if_splits)
  then have "trace w' = trace w @
          ([WiFi_mode_STA, WiFi_begin ssid password, Serial_print ''Connecting to WiFi ..'']
           @ es @ [WiFi_status, ?msg])"
    by (simp add: trace_emit tr4)
  then have "new_events w w' =
          [WiFi_mode_STA, WiFi_begin ssid password, Serial_print ''Connecting to WiFi ..'']
           @ es @ [WiFi_status, ?msg]
          \<and> trace w' = trace w @ new_events w w'"
    by (simp add: new_events_def)
  with inv n3 r show ?thesis
    by auto
qed

lemma T1C_initialize_wifi: "T1C (snd (initialize_wifi E w)) = T1C w"
  by (simp add: initialize_wifi_def Let_def WiFi_status_call_def T1C_emit T1C_initialize_wifi_loop)

lemma T1C_send_data_max_attempts: "T1C (world_of (send_data_max_attempts E p m w)) = T1C w"
proof (cases "send_data E p w")
  case (Returns c w1)
  with T1C_send_data [of E p w] have "T1C w1 = T1C w"
    by simp
  with Returns show ?thesis
    by (simp add: send_data_max_attempts_def T1C_send_data_loop)
next
  case (Hangs wh)
  with T1C_send_data [of E p w] show ?thesis
    by (simp add: send_data_max_attempts_def)
qed

lemma send_data_max_attempts_summary:
  "trace (world_of (send_data_max_attempts E p m w))
     = trace w @ new_events w (world_of (send_data_max_attempts E p m w))
   \<and> (\<exists>es. new_events w (world_of (send_data_max_attempts E p m w)) = Enter_send_data p # es)
   \<and> 1 \<le> count_ev is_Enter (new_events w (world_of (send_data_max_attempts E p m w)))
   \<and> count_ev is_Enter (new_events w (world_of (send_data_max_attempts E p m w))) \<le> max 1 (unat m)
   \<and> (\<forall>x \<in> set (butlast (returned (new_events w (world_of (send_data_max_attempts E p m w))))).
         is_bad_http_code x)
   \<and> (if returns (send_data_max_attempts E p m w)
      then length (returned (new_events w (world_of (send_data_max_attempts E p m w))))
             = count_ev is_Enter (new_events w (world_of (send_data_max_attempts E p m w)))
           \<and> (count_ev is_Enter (new_events w (world_of (send_data_max_attempts E p m w))) = max 1 (unat m)
              \<or> \<not> is_bad_http_code
                   (last (returned (new_events w (world_of (send_data_max_attempts E p m w))))))
      else Suc (length (returned (new_events w (world_of (send_data_max_attempts E p m w)))))
             = count_ev is_Enter (new_events w (world_of (send_data_max_attempts E p m w))))"
proof -
  let ?out = "send_data_max_attempts E p m w"
  from send_data_trace [of E p w] obtain es1 where
    tr1: "trace (world_of (send_data E p w)) = trace w @ Enter_send_data p # es1"
    and en1: "count_ev is_Enter es1 = 0"
    and rt1: "returned es1 = (case send_data E p w of Returns c w' \<Rightarrow> [c] | Hangs w' \<Rightarrow> [])"
    by blast
  show ?thesis
  proof (cases "send_data E p w")
    case (Hangs wh)
    then have out: "?out = Hangs wh"
      by (simp add: send_data_max_attempts_def)
    from Hangs tr1 have "new_events w wh = Enter_send_data p # es1" and "trace wh = trace w @ new_events w wh"
      by (simp_all add: new_events_def)
    with Hangs rt1 en1 show ?thesis
      unfolding out by (simp add: count_ev_Cons)
  next
    case (Returns c w1)
    let ?loop = "send_data_loop E p m c 1 w1"
    from Returns have out: "?out = ?loop"
      by (simp add: send_data_max_attempts_def)
    from send_data_loop_trace [of E p m c 1 w1] obtain es2 where
      tr2: "trace (world_of ?loop) = trace w1 @ es2" and inv: "retry_inv m c 1 ?loop es2"
      by blast
    from Returns tr1 tr2
    have new: "new_events w (world_of ?loop) = Enter_send_data p # es1 @ es2"
      and tr: "trace (world_of ?loop) = trace w @ new_events w (world_of ?loop)"
      by (simp_all add: new_events_def)
    from Returns rt1 have r1: "returned es1 = [c]"
      by simp
    have n: "count_ev is_Enter (Enter_send_data p # es1 @ es2) = Suc (count_ev is_Enter es2)"
      and rs: "returned (Enter_send_data p # es1 @ es2) = c # returned es2"
      by (simp_all add: count_ev_Cons count_ev_append returned_append en1 r1)
    have le: "Suc (count_ev is_Enter es2) \<le> max 1 (unat m)"
      using inv by (auto simp: retry_inv_def)
    have bad_c: "returned es2 \<noteq> [] \<Longrightarrow> is_bad_http_code c"
      using inv by (auto simp: retry_inv_def split: if_splits)
    have bl: "\<forall>x \<in> set (butlast (c # returned es2)). is_bad_http_code x"
      using inv bad_c by (auto simp: retry_inv_def)
    have fin: "if returns ?loop
      then length (c # returned es2) = Suc (count_ev is_Enter es2)
           \<and> (Suc (count_ev is_Enter es2) = max 1 (unat m)
              \<or> \<not> is_bad_http_code (last (c # returned es2)))
      else Suc (length (c # returned es2)) = Suc (count_ev is_Enter es2)"
      using inv by (auto simp: retry_inv_def split: if_splits)
    show ?thesis
      unfolding out new n rs using tr le bl fin
      by (simp add: new)
  qed
qed

lemmas run_defs = send_data_max_attempts_def send_data_loop.simps send_data_def sos_mode_def
  https_begin_def https_POST_def https_getString_def server_answers_def start_world_def
  is_bad_http_code_def new_events_def Let_def ev_simps

lemmas env_defs = wifi_readings_def server_answers_def sos_blocks_def unreachable_def

lemma send_data_begin_fails:
  assumes "\<not> https_begin_at E (count_ev is_begin (trace w))"
    and "\<forall>k. sos_mode_returns_at E k"
  shows "send_data E p w = Returns (- 1)
      (w\<lparr>trace := trace w @
           (Enter_send_data p
            # (if T1C w \<noteq> 0
               then [Serial_println ''ERROR: INTERRUPT WAS NOT DISABLED'', Sos_mode] else [])
            @ [New_WiFiClientSecure, New_HTTPClient, Client_setInsecure, Client_setTimeout 50000,
               Https_begin backend_url, Serial_println ''[HTTPS] Unable to connect'', Sos_mode,
               Leave_send_data (- 1)])\<rparr>)"
  using assms
  by (simp add: send_data_def sos_mode_def https_begin_def Let_def ev_simps emit_def)

lemma new_events_append: "trace w' = trace w @ es \<Longrightarrow> new_events w w' = es"
  by (simp add: new_events_def)

lemma send_data_bad_answers:
  assumes "\<forall>k. sos_mode_returns_at E k" and "\<forall>k. is_bad_http_code (https_POST_at E k)"
  shows "returns (send_data E p w)
    \<and> (\<forall>x \<in> set (returned (new_events w (world_of (send_data E p w)))). is_bad_http_code x)
    \<and> (T1C w = 0 \<and> (\<forall>k. https_begin_at E k) \<longrightarrow>
         count_ev (\<lambda>e. e = Sos_mode) (new_events w (world_of (send_data E p w))) = 0)"
proof -
  have "is_bad_http_code (- 1)"
    by (simp add: is_bad_http_code_def)
  with assms show ?thesis
    by (simp add: send_data_def sos_mode_def https_begin_def https_POST_def https_getString_def
        Let_def ev_simps new_events_def)
qed

lemma send_data_loop_bad_answers:
  assumes "\<forall>k. sos_mode_returns_at E k" and "\<forall>k. is_bad_http_code (https_POST_at E k)"
  shows "returns (send_data_loop E p m c a w)
    \<and> (\<forall>x \<in> set (returned (new_events w (world_of (send_data_loop E p m c a w)))). is_bad_http_code x)
    \<and> (T1C w = 0 \<and> (\<forall>k. https_begin_at E k) \<longrightarrow>
         count_ev (\<lambda>e. e = Sos_mode) (new_events w (world_of (send_data_loop E p m c a w))) = 0)"
  using assms
proof (induction E p m c a w rule: send_data_loop.induct)
  case (1 E p m c a w)
  show ?case
  proof (cases "is_bad_http_code c \<and> a < m")
    case False
    then have "send_data_loop E p m c a w = Returns () w"
      by (subst send_data_loop.simps) auto
    then show ?thesis
      by (simp add: new_events_def count_ev_Nil)
  next
    case True
    let ?r = "Serial_println (CHR 0x0A # ''Retrying...'')"
    let ?w1 = "emit ?r w"
    note call = send_data_bad_answers [OF "1.prems", of p ?w1]
    then obtain c' w2 where sd: "send_data E p ?w1 = Returns c' w2"
      by (cases "send_data E p ?w1") auto
    let ?out = "send_data_loop E p m c' (a + 1) w2"
    from True sd have out: "send_data_loop E p m c a w = ?out"
      by (subst send_data_loop.simps) simp
    note IH = "1.IH" [OF True refl refl sd "1.prems"]
    from send_data_trace [of E p ?w1] sd obtain es1 where
      tr1: "trace w2 = trace ?w1 @ Enter_send_data p # es1"
      by auto
    from send_data_loop_trace [of E p m c' "a + 1" w2] obtain es2 where
      tr2: "trace (world_of ?out) = trace w2 @ es2"
      by blast
    have n1: "new_events ?w1 w2 = Enter_send_data p # es1"
      using tr1 by (rule new_events_append)
    have n2: "new_events w2 (world_of ?out) = es2"
      using tr2 by (rule new_events_append)
    have n: "new_events w (world_of ?out) = ?r # (Enter_send_data p # es1) @ es2"
      by (rule new_events_append) (simp add: tr2 tr1 trace_emit)
    have t2: "T1C w2 = T1C w"
      using T1C_send_data [of E p ?w1] sd by (simp add: T1C_emit)
    from IH have ret: "returns ?out"
      by blast
    from call sd have bad1: "\<forall>x \<in> set (returned (Enter_send_data p # es1)). is_bad_http_code x"
      by (simp add: n1)
    from IH have bad2: "\<forall>x \<in> set (returned es2). is_bad_http_code x"
      by (simp add: n2)
    from bad1 bad2
    have bad: "\<forall>x \<in> set (returned (?r # (Enter_send_data p # es1) @ es2)). is_bad_http_code x"
      by (auto simp: returned_append)
    have sos: "count_ev (\<lambda>e. e = Sos_mode) (?r # (Enter_send_data p # es1) @ es2) = 0"
      if *: "T1C w = 0 \<and> (\<forall>k. https_begin_at E k)"
    proof -
      from * have "T1C ?w1 = 0 \<and> (\<forall>k. https_begin_at E k)"
        by (simp add: T1C_emit)
      with call sd have "count_ev (\<lambda>e. e = Sos_mode) (Enter_send_data p # es1) = 0"
        by (simp add: n1)
      moreover from * t2 have "T1C w2 = 0 \<and> (\<forall>k. https_begin_at E k)"
        by simp
      with IH have "count_ev (\<lambda>e. e = Sos_mode) es2 = 0"
        by (simp add: n2)
      ultimately show ?thesis
        by (simp add: count_ev_Cons count_ev_append)
    qed
    from ret bad sos show ?thesis
      unfolding out n by blast
  qed
qed

lemma outside_calls_send_data:
  "outside_calls False (new_events w (world_of (send_data E p w)) @ rest)
     = outside_calls (\<not> returns (send_data E p w)) rest"
  by (simp add: send_data_def sos_mode_def https_begin_def https_POST_def https_getString_def
      Let_def ev_simps new_events_def)

lemma outside_calls_send_data_loop:
  "outside_calls False (new_events w (world_of (send_data_loop E p m c a w)))
     = replicate (count_ev is_Enter (new_events w (world_of (send_data_loop E p m c a w))))
         (Serial_println (CHR 0x0A # ''Retrying...''))"
proof (induction E p m c a w rule: send_data_loop.induct)
  case (1 E p m c a w)
  show ?case
  proof (cases "is_bad_http_code c \<and> a < m")
    case False
    then have "send_data_loop E p m c a w = Returns () w"
      by (subst send_data_loop.simps) auto
    then show ?thesis
      by (simp add: new_events_def count_ev_Nil)
  next
    case True
    let ?r = "Serial_println (CHR 0x0A # ''Retrying...'')"
    let ?w1 = "emit ?r w"
    let ?sd = "send_data E p ?w1"
    from send_data_trace [of E p ?w1] obtain es1 where
      tr1: "trace (world_of ?sd) = trace ?w1 @ Enter_send_data p # es1"
      and en1: "count_ev is_Enter es1 = 0"
      by blast
    have n1: "new_events ?w1 (world_of ?sd) = Enter_send_data p # es1"
      using tr1 by (rule new_events_append)
    show ?thesis
    proof (cases ?sd)
      case (Hangs wh)
      with True have out: "send_data_loop E p m c a w = Hangs wh"
        by (subst send_data_loop.simps) simp
      from Hangs tr1 have "trace wh = trace w @ (?r # Enter_send_data p # es1)"
        by (simp add: trace_emit)
      then have n: "new_events w wh = ?r # Enter_send_data p # es1"
        by (rule new_events_append)
      from outside_calls_send_data [of ?w1 E p "[]"] Hangs n1
      have "outside_calls False (Enter_send_data p # es1) = []"
        by simp
      then show ?thesis
        unfolding out by (simp add: n count_ev_Cons en1)
    next
      case (Returns c' w2)
      let ?out = "send_data_loop E p m c' (a + 1) w2"
      from True Returns have out: "send_data_loop E p m c a w = ?out"
        by (subst send_data_loop.simps) simp
      note IH = "1.IH" [OF True refl refl Returns]
      from send_data_loop_trace [of E p m c' "a + 1" w2] obtain es2 where
        tr2: "trace (world_of ?out) = trace w2 @ es2"
        by blast
      have n2: "new_events w2 (world_of ?out) = es2"
        using tr2 by (rule new_events_append)
      from Returns tr1 tr2
      have "trace (world_of ?out) = trace w @ (?r # (Enter_send_data p # es1) @ es2)"
        by (simp add: trace_emit)
      then have n: "new_events w (world_of ?out) = ?r # (Enter_send_data p # es1) @ es2"
        by (rule new_events_append)
      from outside_calls_send_data [of ?w1 E p es2] Returns n1
      have "outside_calls False ((Enter_send_data p # es1) @ es2) = outside_calls False es2"
        by simp
      with IH show ?thesis
        unfolding out n by (simp add: n2 count_ev_Cons count_ev_append en1)
    qed
  qed
qed

lemma outside_calls_send_data_max_attempts:
  "outside_calls False (new_events w (world_of (send_data_max_attempts E p m w)))
     = replicate (count_ev is_Enter (new_events w (world_of (send_data_max_attempts E p m w))) - 1)
         (Serial_println (CHR 0x0A # ''Retrying...''))"
proof -
  let ?sd = "send_data E p w"
  from send_data_trace [of E p w] obtain es1 where
    tr1: "trace (world_of ?sd) = trace w @ Enter_send_data p # es1"
    and en1: "count_ev is_Enter es1 = 0"
    by blast
  have n1: "new_events w (world_of ?sd) = Enter_send_data p # es1"
    using tr1 by (rule new_events_append)
  show ?thesis
  proof (cases ?sd)
    case (Hangs wh)
    then have out: "send_data_max_attempts E p m w = Hangs wh"
      by (simp add: send_data_max_attempts_def)
    from outside_calls_send_data [of w E p "[]"] Hangs n1
    have "outside_calls False (Enter_send_data p # es1) = []"
      by simp
    with Hangs n1 show ?thesis
      unfolding out by (simp add: count_ev_Cons en1)
  next
    case (Returns c w1)
    let ?out = "send_data_loop E p m c 1 w1"
    from Returns have out: "send_data_max_attempts E p m w = ?out"
      by (simp add: send_data_max_attempts_def)
    from send_data_loop_trace [of E p m c 1 w1] obtain es2 where
      tr2: "trace (world_of ?out) = trace w1 @ es2"
      by blast
    have n2: "new_events w1 (world_of ?out) = es2"
      using tr2 by (rule new_events_append)
    from Returns tr1 tr2
    have "trace (world_of ?out) = trace w @ ((Enter_send_data p # es1) @ es2)"
      by simp
    then have n: "new_events w (world_of ?out) = (Enter_send_data p # es1) @ es2"
      by (rule new_events_append)
    from outside_calls_send_data [of w E p es2] Returns n1
    have "outside_calls False ((Enter_send_data p # es1) @ es2) = outside_calls False es2"
      by simp
    with outside_calls_send_data_loop [of w1 E p m c 1] show ?thesis
      unfolding out n by (simp add: n2 count_ev_Cons count_ev_append en1)
  qed
qed

lemma count_ev_replicate: "count_ev P (replicate n e) = (if P e then n else 0)"
  by (simp add: count_ev_def)

section \<open>Status classification\<close>

text \<open>
  C4. For every integer code \<open>c\<close>, \<^verbatim>\<open>is_bad_http_code(c)\<close> is true exactly when
  \<open>c < 200\<close> or \<open>c \<ge> 300\<close>; in particular 200 is not bad, and 301, 404 and 199 are.
\<close>

theorem is_bad_http_code_iff:
  "(is_bad_http_code c \<longleftrightarrow> c < 200 \<or> c \<ge> 300)
   \<and> is_bad_http_code 200 = False
   \<and> is_bad_http_code 301 = True
   \<and> is_bad_http_code 404 = True
   \<and> is_bad_http_code 199 = True"
  by (simp add: is_bad_http_code_def)

section \<open>WiFi connector\<close>

text \<open>
  C3, as the code has it. For every sequence of status readings \<^verbatim>\<open>initialize_wifi()\<close>
  returns, after at most 11 delays of one second each and at most 12 readings of the
  status: at most 11 in the loop condition, each failed one followed by a delay, and
  one more after the loop. The value returned is the result of that last reading:
  true if and only if it is connected. Either the loop ended on a connected reading
  after at most 10 delays, or it was left by the \<^verbatim>\<open>break\<close> after the 11th delay. When the
  status, once connected, stays connected, the value is true if and only if one of
  the 12 readings is connected.
\<close>

theorem initialize_wifi_polls:
  assumes "initialize_wifi E w = (r, w')"
  shows "trace w' = trace w @ new_events w w'
    \<and> count_ev is_Delay (new_events w w') \<le> 11
    \<and> count_ev (\<lambda>e. e = WiFi_status) (new_events w w') \<le> 12
    \<and> (\<forall>e \<in> set (new_events w w'). is_Delay e \<longrightarrow> e = Delay 1000)
    \<and> (\<forall>i < count_ev is_Delay (new_events w w').
          wifi_status_at E (count_ev (\<lambda>e. e = WiFi_status) (trace w) + i) \<noteq> WL_CONNECTED)
    \<and> (count_ev is_Delay (new_events w w') \<le> 10
          \<and> count_ev (\<lambda>e. e = WiFi_status) (new_events w w') = count_ev is_Delay (new_events w w') + 2
          \<and> wifi_status_at E (count_ev (\<lambda>e. e = WiFi_status) (trace w)
               + count_ev is_Delay (new_events w w')) = WL_CONNECTED
        \<or> count_ev is_Delay (new_events w w') = 11
          \<and> count_ev (\<lambda>e. e = WiFi_status) (new_events w w') = 12)
    \<and> r = (wifi_status_at E (count_ev (\<lambda>e. e = WiFi_status) (trace w)
              + count_ev (\<lambda>e. e = WiFi_status) (new_events w w') - 1) = WL_CONNECTED)
    \<and> ((\<forall>k. wifi_status_at E k = WL_CONNECTED \<longrightarrow> wifi_status_at E (Suc k) = WL_CONNECTED)
        \<longrightarrow> r = (\<exists>k \<le> 11. wifi_status_at E (count_ev (\<lambda>e. e = WiFi_status) (trace w) + k) = WL_CONNECTED))"
proof -
  let ?S = "\<lambda>e. e = WiFi_status"
  let ?n0 = "count_ev ?S (trace w)"
  let ?st = "wifi_status_at E"
  let ?new = "new_events w w'"
  from initialize_wifi_events [OF assms] obtain es where
    new: "?new = [WiFi_mode_STA, WiFi_begin ssid password, Serial_print ''Connecting to WiFi ..'']
            @ es @ [WiFi_status, Serial_println (if r then ''Connected to the WiFi network''
                                                  else ''Failed to connect to WiFi'')]"
    and tr: "trace w' = trace w @ ?new"
    and inv: "poll_inv E ?n0 0 es"
    and r: "r = (?st (?n0 + count_ev ?S es) = WL_CONNECTED)"
    by blast
  have d: "count_ev is_Delay ?new = count_ev is_Delay es"
    and s: "count_ev ?S ?new = Suc (count_ev ?S es)"
    by (simp_all add: new ev_simps)
  have ds: "\<forall>e \<in> set ?new. is_Delay e \<longrightarrow> e = Delay 1000"
    using inv by (auto simp: new poll_inv_def)
  have fails: "\<forall>i < count_ev is_Delay es. ?st (?n0 + i) \<noteq> WL_CONNECTED"
    using inv by (simp add: poll_inv_def)
  have alt: "count_ev ?S es = Suc (count_ev is_Delay es)
               \<and> ?st (?n0 + count_ev is_Delay es) = WL_CONNECTED \<and> count_ev is_Delay es \<le> 10
             \<or> count_ev ?S es = count_ev is_Delay es \<and> count_ev is_Delay es = 11"
    using inv by (simp add: poll_inv_def)
  have stable: "r = (\<exists>k \<le> 11. ?st (?n0 + k) = WL_CONNECTED)"
    if st: "\<forall>k. ?st k = WL_CONNECTED \<longrightarrow> ?st (Suc k) = WL_CONNECTED"
    using alt
  proof
    assume a: "count_ev ?S es = Suc (count_ev is_Delay es)
               \<and> ?st (?n0 + count_ev is_Delay es) = WL_CONNECTED \<and> count_ev is_Delay es \<le> 10"
    with st have "?st (Suc (?n0 + count_ev is_Delay es)) = WL_CONNECTED"
      by blast
    with a r have "r" by simp
    moreover from a have "\<exists>k \<le> 11. ?st (?n0 + k) = WL_CONNECTED"
      by (intro exI [of _ "count_ev is_Delay es"]) simp
    ultimately show ?thesis by simp
  next
    assume b: "count_ev ?S es = count_ev is_Delay es \<and> count_ev is_Delay es = 11"
    with fails have no: "\<forall>i < 11. ?st (?n0 + i) \<noteq> WL_CONNECTED"
      by simp
    have "(\<exists>k \<le> 11. ?st (?n0 + k) = WL_CONNECTED) = (?st (?n0 + 11) = WL_CONNECTED)"
    proof
      assume "\<exists>k \<le> 11. ?st (?n0 + k) = WL_CONNECTED"
      then obtain k where k: "k \<le> 11" "?st (?n0 + k) = WL_CONNECTED" by blast
      with no have "\<not> k < 11" by blast
      with k show "?st (?n0 + 11) = WL_CONNECTED" by simp
    qed auto
    with b r show ?thesis by simp
  qed
  have c2: "count_ev is_Delay ?new \<le> 11" and c3: "count_ev ?S ?new \<le> 12"
    using alt by (auto simp: d s)
  have c5: "\<forall>i < count_ev is_Delay ?new. ?st (?n0 + i) \<noteq> WL_CONNECTED"
    using fails by (simp add: d)
  have c6: "count_ev is_Delay ?new \<le> 10
          \<and> count_ev ?S ?new = count_ev is_Delay ?new + 2
          \<and> ?st (?n0 + count_ev is_Delay ?new) = WL_CONNECTED
        \<or> count_ev is_Delay ?new = 11 \<and> count_ev ?S ?new = 12"
    using alt by (auto simp: d s)
  have c7: "r = (?st (?n0 + count_ev ?S ?new - 1) = WL_CONNECTED)"
    using r by (simp add: s)
  have c8: "(\<forall>k. ?st k = WL_CONNECTED \<longrightarrow> ?st (Suc k) = WL_CONNECTED)
        \<longrightarrow> r = (\<exists>k \<le> 11. ?st (?n0 + k) = WL_CONNECTED)"
    using stable by blast
  show ?thesis
    by (intro conjI) (fact tr c2 c3 ds c5 c6 c7 c8)+
qed

text \<open>
  The theorem at a run where the first three readings are not connected: three
  delays, five readings, and the value true.
\<close>

theorem initialize_wifi_polls_witness:
  "fst (initialize_wifi (wifi_readings (\<lambda>k. if k < 3 then WL_DISCONNECTED else WL_CONNECTED)) (start_world 0)) = True
   \<and> count_ev is_Delay (new_events (start_world 0)
        (snd (initialize_wifi (wifi_readings (\<lambda>k. if k < 3 then WL_DISCONNECTED else WL_CONNECTED)) (start_world 0)))) = 3
   \<and> count_ev (\<lambda>e. e = WiFi_status) (new_events (start_world 0)
        (snd (initialize_wifi (wifi_readings (\<lambda>k. if k < 3 then WL_DISCONNECTED else WL_CONNECTED)) (start_world 0)))) = 5"
proof -
  let ?E = "wifi_readings (\<lambda>k. if k < 3 then WL_DISCONNECTED else WL_CONNECTED)"
  let ?w = "start_world 0"
  let ?r = "fst (initialize_wifi ?E ?w)"
  let ?w' = "snd (initialize_wifi ?E ?w)"
  have run: "initialize_wifi ?E ?w = (?r, ?w')"
    by simp
  have st: "\<forall>k. wifi_status_at ?E k = WL_CONNECTED \<longrightarrow> wifi_status_at ?E (Suc k) = WL_CONNECTED"
    by (simp add: wifi_readings_def)
  have ex: "\<exists>k \<le> 11. wifi_status_at ?E (count_ev (\<lambda>e. e = WiFi_status) (trace ?w) + k) = WL_CONNECTED"
    by (intro exI [of _ 3]) (simp add: wifi_readings_def start_world_def count_ev_Nil)
  have d3: "wifi_status_at ?E (count_ev (\<lambda>e. e = WiFi_status) (trace ?w) + 3) = WL_CONNECTED"
    and d2: "wifi_status_at ?E (count_ev (\<lambda>e. e = WiFi_status) (trace ?w) + 2) \<noteq> WL_CONNECTED"
    by (simp_all add: wifi_readings_def start_world_def count_ev_Nil)
  note inst = initialize_wifi_polls [OF run]
  from inst st ex have r: "?r = True"
    by blast
  from inst have fails: "\<forall>i < count_ev is_Delay (new_events ?w ?w').
          wifi_status_at ?E (count_ev (\<lambda>e. e = WiFi_status) (trace ?w) + i) \<noteq> WL_CONNECTED"
    by blast
  from inst have alt: "count_ev is_Delay (new_events ?w ?w') \<le> 10
          \<and> count_ev (\<lambda>e. e = WiFi_status) (new_events ?w ?w') = count_ev is_Delay (new_events ?w ?w') + 2
          \<and> wifi_status_at ?E (count_ev (\<lambda>e. e = WiFi_status) (trace ?w)
               + count_ev is_Delay (new_events ?w ?w')) = WL_CONNECTED
        \<or> count_ev is_Delay (new_events ?w ?w') = 11
          \<and> count_ev (\<lambda>e. e = WiFi_status) (new_events ?w ?w') = 12"
    by blast
  have "\<not> 3 < count_ev is_Delay (new_events ?w ?w')"
    using fails d3 by blast
  moreover have "\<not> count_ev is_Delay (new_events ?w ?w') < 3"
    using alt by (auto simp: wifi_readings_def start_world_def count_ev_Nil)
  ultimately have "count_ev is_Delay (new_events ?w ?w') = 3"
    by simp
  with alt r show ?thesis
    by simp
qed

text \<open>
  C3 as stated fails when the status never reads connected: the loop delays 11 times
  and the status is read 12 times, not at most 10.
\<close>

theorem initialize_wifi_never_connected:
  "count_ev is_Delay
     (trace (snd (initialize_wifi (wifi_readings (\<lambda>k. WL_DISCONNECTED)) (start_world 0)))) = 11
   \<and> count_ev (\<lambda>e. e = WiFi_status)
     (trace (snd (initialize_wifi (wifi_readings (\<lambda>k. WL_DISCONNECTED)) (start_world 0)))) = 12
   \<and> fst (initialize_wifi (wifi_readings (\<lambda>k. WL_DISCONNECTED)) (start_world 0)) = False"
  by (simp add: initialize_wifi_def initialize_wifi_loop.simps WiFi_status_call_def
      wifi_readings_def start_world_def Let_def ev_simps)

text \<open>
  C10, as the code has it. If the status reads connected at the first reading, the
  body of the polling loop never executes: there is no delay, and the function
  returns at once with the result of a second reading of the status, taken right
  after the loop; it returns true if and only if that second reading is connected
  as well.
\<close>

theorem initialize_wifi_already_connected:
  assumes "initialize_wifi E w = (r, w')"
    and "wifi_status_at E (count_ev (\<lambda>e. e = WiFi_status) (trace w)) = WL_CONNECTED"
  shows "new_events w w' =
       [WiFi_mode_STA, WiFi_begin ssid password, Serial_print ''Connecting to WiFi ..'',
        WiFi_status, WiFi_status,
        Serial_println (if r then ''Connected to the WiFi network''
                        else ''Failed to connect to WiFi'')]
     \<and> count_ev is_Delay (new_events w w') = 0
     \<and> r = (wifi_status_at E (Suc (count_ev (\<lambda>e. e = WiFi_status) (trace w))) = WL_CONNECTED)"
proof -
  let ?w3 = "emit (Serial_print ''Connecting to WiFi ..'')
               (emit (WiFi_begin ssid password) (emit WiFi_mode_STA w))"
  have loop: "initialize_wifi_loop E 0 ?w3 = emit WiFi_status ?w3"
    using assms(2)
    by (subst initialize_wifi_loop.simps) (simp add: WiFi_status_call_def ev_simps)
  have unf: "initialize_wifi E w =
      (if wifi_status_at E (Suc (count_ev (\<lambda>e. e = WiFi_status) (trace w))) = WL_CONNECTED
       then (True, emit (Serial_println ''Connected to the WiFi network'')
                     (emit WiFi_status (emit WiFi_status ?w3)))
       else (False, emit (Serial_println ''Failed to connect to WiFi'')
                      (emit WiFi_status (emit WiFi_status ?w3))))"
    by (simp add: initialize_wifi_def Let_def loop WiFi_status_call_def ev_simps)
  from assms(1) have r: "r = (wifi_status_at E (Suc (count_ev (\<lambda>e. e = WiFi_status) (trace w))) = WL_CONNECTED)"
    unfolding unf by (simp split: if_splits)
  from assms(1) have "w' = emit (Serial_println (if r then ''Connected to the WiFi network''
                        else ''Failed to connect to WiFi'')) (emit WiFi_status (emit WiFi_status ?w3))"
    unfolding unf by (simp split: if_splits)
  then have new: "new_events w w' =
       [WiFi_mode_STA, WiFi_begin ssid password, Serial_print ''Connecting to WiFi ..'',
        WiFi_status, WiFi_status,
        Serial_println (if r then ''Connected to the WiFi network''
                        else ''Failed to connect to WiFi'')]"
    by (simp add: new_events_def trace_emit)
  have "count_ev is_Delay (new_events w w') = 0"
    unfolding new by (simp add: count_ev_Cons count_ev_Nil)
  with new r show ?thesis
    by blast
qed

text \<open>The theorem at a status that reads connected throughout: no delay, and the value true.\<close>

theorem initialize_wifi_already_connected_witness:
  "wifi_status_at (wifi_readings (\<lambda>k. WL_CONNECTED)) (count_ev (\<lambda>e. e = WiFi_status) (trace (start_world 0)))
     = WL_CONNECTED
   \<and> fst (initialize_wifi (wifi_readings (\<lambda>k. WL_CONNECTED)) (start_world 0)) = True
   \<and> count_ev is_Delay (new_events (start_world 0)
        (snd (initialize_wifi (wifi_readings (\<lambda>k. WL_CONNECTED)) (start_world 0)))) = 0"
proof -
  let ?E = "wifi_readings (\<lambda>k. WL_CONNECTED)"
  let ?w = "start_world 0"
  have run: "initialize_wifi ?E ?w = (fst (initialize_wifi ?E ?w), snd (initialize_wifi ?E ?w))"
    by simp
  have c: "wifi_status_at ?E (count_ev (\<lambda>e. e = WiFi_status) (trace ?w)) = WL_CONNECTED"
    and c': "wifi_status_at ?E (Suc (count_ev (\<lambda>e. e = WiFi_status) (trace ?w))) = WL_CONNECTED"
    by (simp_all add: wifi_readings_def)
  from initialize_wifi_already_connected [OF run c] c c' show ?thesis
    by (simp add: count_ev_Cons count_ev_Nil)
qed

text \<open>
  C10 as stated fails when the connection is lost between the two readings: the
  first reading is connected, and the function returns false.
\<close>

theorem initialize_wifi_connection_lost:
  "wifi_status_at (wifi_readings (\<lambda>k. if k = 0 then WL_CONNECTED else WL_CONNECTION_LOST))
      (count_ev (\<lambda>e. e = WiFi_status) (trace (start_world 0))) = WL_CONNECTED
   \<and> fst (initialize_wifi (wifi_readings (\<lambda>k. if k = 0 then WL_CONNECTED else WL_CONNECTION_LOST))
        (start_world 0)) = False"
  by (simp add: initialize_wifi_def initialize_wifi_loop.simps WiFi_status_call_def
      wifi_readings_def start_world_def Let_def ev_simps)

section \<open>The hardware interrupt flag\<close>

text \<open>
  C7. No operation of the file writes the register \<^verbatim>\<open>T1C\<close>: after \<^verbatim>\<open>initialize_wifi\<close>,
  after the single-shot \<^verbatim>\<open>send_data\<close> and after the retrying \<^verbatim>\<open>send_data\<close> its value is
  the value before the call, whether the call returns or is stuck in \<^verbatim>\<open>sos_mode\<close>.
  (\<^verbatim>\<open>is_bad_http_code\<close> is a function of its argument alone and has no access to the
  register.)
\<close>

theorem T1C_is_read_only:
  "T1C (snd (initialize_wifi E w)) = T1C w
   \<and> T1C (world_of (send_data E p w)) = T1C w
   \<and> T1C (world_of (send_data_max_attempts E p m w)) = T1C w"
  by (simp add: T1C_initialize_wifi T1C_send_data T1C_send_data_max_attempts)

section \<open>Telemetry sender: the retry loop\<close>

text \<open>
  C1, as the code has it. For every payload and every \<^verbatim>\<open>max_attempts\<close> the retrying
  \<^verbatim>\<open>send_data\<close> invokes the single-shot sender at least once and at most
  \<open>max 1 max_attempts\<close> times; every status returned before the last one is bad, so
  it stops as soon as a call returns a status that is not bad; when it returns, it has
  either made \<open>max 1 max_attempts\<close> calls (the counter starts at 1 after the first
  call) or ended on a status that is not bad. With the answers 500, 500, 500, 200 and
  \<^verbatim>\<open>max_attempts = 4\<close> exactly 4 calls are made, ending on 200.
\<close>

theorem send_data_max_attempts_bound:
  "trace (world_of (send_data_max_attempts E p m w))
     = trace w @ new_events w (world_of (send_data_max_attempts E p m w))
   \<and> 1 \<le> count_ev is_Enter (new_events w (world_of (send_data_max_attempts E p m w)))
   \<and> count_ev is_Enter (new_events w (world_of (send_data_max_attempts E p m w))) \<le> max 1 (unat m)
   \<and> (\<forall>x \<in> set (butlast (returned (new_events w (world_of (send_data_max_attempts E p m w))))).
         is_bad_http_code x)
   \<and> (returns (send_data_max_attempts E p m w) \<longrightarrow>
        length (returned (new_events w (world_of (send_data_max_attempts E p m w))))
          = count_ev is_Enter (new_events w (world_of (send_data_max_attempts E p m w)))
        \<and> (count_ev is_Enter (new_events w (world_of (send_data_max_attempts E p m w))) = max 1 (unat m)
           \<or> \<not> is_bad_http_code
                (last (returned (new_events w (world_of (send_data_max_attempts E p m w)))))))
   \<and> returns (send_data_max_attempts (server_answers (\<lambda>k. if k < 3 then 500 else 200)) p 4 (start_world 0))
   \<and> count_ev is_Enter (trace (world_of
        (send_data_max_attempts (server_answers (\<lambda>k. if k < 3 then 500 else 200)) p 4 (start_world 0)))) = 4
   \<and> returned (trace (world_of
        (send_data_max_attempts (server_answers (\<lambda>k. if k < 3 then 500 else 200)) p 4 (start_world 0))))
      = [500, 500, 500, 200]"
proof -
  let ?E = "server_answers (\<lambda>k. if k < 3 then 500 else 200)"
  let ?run = "send_data_max_attempts ?E p 4 (start_world 0)"
  have "returns ?run" and "count_ev is_Enter (trace (world_of ?run)) = 4"
    and "returned (trace (world_of ?run)) = [500, 500, 500, 200]"
    by (simp_all add: run_defs)
  with send_data_max_attempts_summary [of E p m w] show ?thesis
    by (simp split: if_splits)
qed

text \<open>
  The theorem at a run that returns: the server answers 404 and then 200, with
  \<^verbatim>\<open>max_attempts = 3\<close>; two calls are made and the last status is not bad.
\<close>

theorem send_data_max_attempts_bound_witness:
  "returns (send_data_max_attempts (server_answers (\<lambda>k. if k < 1 then 404 else 200)) ''{}'' 3 (start_world 0))
   \<and> count_ev is_Enter (new_events (start_world 0) (world_of
        (send_data_max_attempts (server_answers (\<lambda>k. if k < 1 then 404 else 200)) ''{}'' 3 (start_world 0)))) = 2
   \<and> \<not> is_bad_http_code (last (returned (new_events (start_world 0) (world_of
        (send_data_max_attempts (server_answers (\<lambda>k. if k < 1 then 404 else 200)) ''{}'' 3 (start_world 0))))))"
proof -
  let ?run = "send_data_max_attempts (server_answers (\<lambda>k. if k < 1 then 404 else 200)) ''{}'' 3 (start_world 0)"
  have r: "returns ?run"
    by (simp add: run_defs)
  have n: "count_ev is_Enter (new_events (start_world 0) (world_of ?run)) = 2"
    by (simp add: run_defs)
  have "max 1 (unat (3 :: 8 word)) = 3"
    by simp
  with send_data_max_attempts_bound [of "server_answers (\<lambda>k. if k < 1 then 404 else 200)" "''{}''" 3 "start_world 0"]
    r n
  show ?thesis
    by simp
qed

text \<open>
  C1 as stated fails for \<^verbatim>\<open>max_attempts = 0\<close>: one single-shot call is made, which is
  more than \<^verbatim>\<open>max_attempts\<close>.
\<close>

theorem send_data_zero_max_attempts:
  "count_ev is_Enter (trace (world_of
      (send_data_max_attempts (server_answers (\<lambda>k. 200)) ''{}'' 0 (start_world 0)))) = 1
   \<and> \<not> count_ev is_Enter (trace (world_of
      (send_data_max_attempts (server_answers (\<lambda>k. 200)) ''{}'' 0 (start_world 0)))) \<le> unat (0 :: 8 word)"
  by (simp add: run_defs)

text \<open>
  C8. The first single-shot call is issued unconditionally: the first thing the
  retrying \<^verbatim>\<open>send_data\<close> does is to enter the single-shot sender, for every
  \<^verbatim>\<open>max_attempts\<close>; and for \<^verbatim>\<open>max_attempts\<close> 0 or 1 exactly one call is made, the
  retrying \<^verbatim>\<open>send_data\<close> being then the single-shot sender with its status dropped.
\<close>

theorem first_call_unconditional:
  "(\<exists>es. new_events w (world_of (send_data_max_attempts E p m w)) = Enter_send_data p # es)
   \<and> 1 \<le> count_ev is_Enter (new_events w (world_of (send_data_max_attempts E p m w)))
   \<and> (m \<le> 1 \<longrightarrow>
        count_ev is_Enter (new_events w (world_of (send_data_max_attempts E p m w))) = 1
        \<and> send_data_max_attempts E p m w
            = (case send_data E p w of Hangs wh \<Rightarrow> Hangs wh | Returns c w1 \<Rightarrow> Returns () w1))"
proof -
  have one: "count_ev is_Enter (new_events w (world_of (send_data_max_attempts E p m w))) = 1"
    if "m \<le> 1"
  proof -
    from that have "unat m \<le> 1"
      by (simp add: word_le_nat_alt)
    then have "max 1 (unat m) = 1"
      by simp
    with send_data_max_attempts_summary [of E p m w] show ?thesis
      by simp
  qed
  have same: "send_data_max_attempts E p m w
      = (case send_data E p w of Hangs wh \<Rightarrow> Hangs wh | Returns c w1 \<Rightarrow> Returns () w1)"
    if "m \<le> 1"
  proof -
    from that have "\<not> 1 < m"
      by simp
    then have "send_data_loop E p m c 1 w1 = Returns () w1" for c w1
      by (subst send_data_loop.simps) simp
    then show ?thesis
      by (simp add: send_data_max_attempts_def split: outcome.splits)
  qed
  from send_data_max_attempts_summary [of E p m w] one same show ?thesis
    by blast
qed

text \<open>The theorem at \<^verbatim>\<open>max_attempts = 0\<close> with a server that answers 500: one call, not retried.\<close>

theorem first_call_unconditional_witness:
  "(0 :: 8 word) \<le> 1
   \<and> count_ev is_Enter (new_events (start_world 0) (world_of
        (send_data_max_attempts (server_answers (\<lambda>k. 500)) ''{}'' 0 (start_world 0)))) = 1
   \<and> returned (new_events (start_world 0) (world_of
        (send_data_max_attempts (server_answers (\<lambda>k. 500)) ''{}'' 0 (start_world 0)))) = [500]"
proof -
  let ?run = "send_data_max_attempts (server_answers (\<lambda>k. 500)) ''{}'' 0 (start_world 0)"
  have le: "(0 :: 8 word) \<le> 1"
    by simp
  have rs: "returned (new_events (start_world 0) (world_of ?run)) = [500]"
    by (simp add: run_defs)
  from first_call_unconditional [of "start_world 0" "server_answers (\<lambda>k. 500)" "''{}''" 0] le
  have "count_ev is_Enter (new_events (start_world 0) (world_of ?run)) = 1"
    by blast
  with le rs show ?thesis
    by simp
qed

text \<open>
  C6, as the code has it. If control comes back from every call of \<^verbatim>\<open>sos_mode\<close> and
  every POST is answered with a bad status, then every single-shot call returns a bad
  status, and the retrying \<^verbatim>\<open>send_data\<close> returns normally after exactly
  \<open>max 1 max_attempts\<close> single-shot calls; the last status is dropped with the others
  (the function is \<^verbatim>\<open>void\<close>). The retry loop itself does not escalate: outside the
  single-shot calls the function does nothing but log \<^verbatim>\<open>Retrying...\<close> once before
  each call after the first, so no call of \<^verbatim>\<open>sos_mode\<close> comes from the loop, whatever
  the interrupt flag and the connections do. When moreover the flag is clear and every
  connection opens, \<^verbatim>\<open>sos_mode\<close> is not invoked at all.
\<close>

theorem send_data_retries_exhausted:
  assumes "\<forall>k. sos_mode_returns_at E k" and "\<forall>k. is_bad_http_code (https_POST_at E k)"
  shows "returns (send_data_max_attempts E p m w)
    \<and> count_ev is_Enter (new_events w (world_of (send_data_max_attempts E p m w))) = max 1 (unat m)
    \<and> length (returned (new_events w (world_of (send_data_max_attempts E p m w)))) = max 1 (unat m)
    \<and> (\<forall>x \<in> set (returned (new_events w (world_of (send_data_max_attempts E p m w)))).
          is_bad_http_code x)
    \<and> (T1C w = 0 \<and> (\<forall>k. https_begin_at E k) \<longrightarrow>
         count_ev (\<lambda>e. e = Sos_mode) (new_events w (world_of (send_data_max_attempts E p m w))) = 0)
    \<and> outside_calls False (new_events w (world_of (send_data_max_attempts E p m w)))
        = replicate (max 1 (unat m) - 1) (Serial_println (CHR 0x0A # ''Retrying...''))
    \<and> count_ev (\<lambda>e. e = Sos_mode)
          (outside_calls False (new_events w (world_of (send_data_max_attempts E p m w)))) = 0"
proof -
  let ?out = "send_data_max_attempts E p m w"
  let ?new = "new_events w (world_of ?out)"
  note call = send_data_bad_answers [OF assms, of p w]
  then obtain c w1 where sd: "send_data E p w = Returns c w1"
    by (cases "send_data E p w") auto
  let ?loop = "send_data_loop E p m c 1 w1"
  from sd have out: "?out = ?loop"
    by (simp add: send_data_max_attempts_def)
  note loop = send_data_loop_bad_answers [OF assms, of p m c 1 w1]
  from send_data_trace [of E p w] sd obtain es1 where
    tr1: "trace w1 = trace w @ Enter_send_data p # es1"
    by auto
  from send_data_loop_trace [of E p m c 1 w1] obtain es2 where
    tr2: "trace (world_of ?loop) = trace w1 @ es2"
    by blast
  have n1: "new_events w w1 = Enter_send_data p # es1"
    using tr1 by (rule new_events_append)
  have n2: "new_events w1 (world_of ?loop) = es2"
    using tr2 by (rule new_events_append)
  have n: "new_events w (world_of ?loop) = (Enter_send_data p # es1) @ es2"
    by (rule new_events_append) (simp add: tr2 tr1)
  have t1: "T1C w1 = T1C w"
    using T1C_send_data [of E p w] sd by simp
  from loop have ret: "returns ?out"
    unfolding out by blast
  from call sd have bad1: "\<forall>x \<in> set (returned (Enter_send_data p # es1)). is_bad_http_code x"
    by (simp add: n1)
  from loop have bad2: "\<forall>x \<in> set (returned es2). is_bad_http_code x"
    by (simp add: n2)
  from bad1 bad2 have bad: "\<forall>x \<in> set (returned ?new). is_bad_http_code x"
    unfolding out n by (auto simp: returned_append)
  have sos: "count_ev (\<lambda>e. e = Sos_mode) ?new = 0"
    if *: "T1C w = 0 \<and> (\<forall>k. https_begin_at E k)"
  proof -
    from * call sd have "count_ev (\<lambda>e. e = Sos_mode) (Enter_send_data p # es1) = 0"
      by (simp add: n1)
    moreover from * t1 have "T1C w1 = 0 \<and> (\<forall>k. https_begin_at E k)"
      by simp
    with loop have "count_ev (\<lambda>e. e = Sos_mode) es2 = 0"
      by (simp add: n2)
    ultimately show ?thesis
      unfolding out n by (simp add: count_ev_append count_ev_Cons)
  qed
  note sum = send_data_max_attempts_summary [of E p m w]
  from sum ret have len: "length (returned ?new) = count_ev is_Enter ?new"
    and alt: "count_ev is_Enter ?new = max 1 (unat m) \<or> \<not> is_bad_http_code (last (returned ?new))"
    by simp_all
  from sum have "1 \<le> count_ev is_Enter ?new"
    by blast
  with len have "returned ?new \<noteq> []"
    by auto
  then have "last (returned ?new) \<in> set (returned ?new)"
    by (rule last_in_set)
  with bad alt have cnt: "count_ev is_Enter ?new = max 1 (unat m)"
    by blast
  from outside_calls_send_data_max_attempts [of w E p m] cnt
  have own: "outside_calls False ?new
        = replicate (max 1 (unat m) - 1) (Serial_println (CHR 0x0A # ''Retrying...''))"
    by simp
  then have quiet: "count_ev (\<lambda>e. e = Sos_mode) (outside_calls False ?new) = 0"
    by (simp add: count_ev_replicate)
  from ret cnt len bad sos own quiet show ?thesis
    by simp
qed

text \<open>
  The theorem at a server that answers 500 throughout, with \<^verbatim>\<open>max_attempts = 3\<close>: three
  calls. With the interrupt flag set each of the three calls invokes \<^verbatim>\<open>sos_mode\<close>, and
  still the loop itself only logs its two retries.
\<close>

theorem send_data_retries_exhausted_witness:
  "returns (send_data_max_attempts (server_answers (\<lambda>k. 500)) ''{}'' 3 (start_world 0))
   \<and> count_ev is_Enter (new_events (start_world 0)
        (world_of (send_data_max_attempts (server_answers (\<lambda>k. 500)) ''{}'' 3 (start_world 0)))) = 3
   \<and> returned (new_events (start_world 0)
        (world_of (send_data_max_attempts (server_answers (\<lambda>k. 500)) ''{}'' 3 (start_world 0))))
      = [500, 500, 500]
   \<and> count_ev (\<lambda>e. e = Sos_mode) (new_events (start_world 0)
        (world_of (send_data_max_attempts (server_answers (\<lambda>k. 500)) ''{}'' 3 (start_world 0)))) = 0
   \<and> count_ev (\<lambda>e. e = Sos_mode) (new_events (start_world 1)
        (world_of (send_data_max_attempts (server_answers (\<lambda>k. 500)) ''{}'' 3 (start_world 1)))) = 3
   \<and> outside_calls False (new_events (start_world 1)
        (world_of (send_data_max_attempts (server_answers (\<lambda>k. 500)) ''{}'' 3 (start_world 1))))
      = [Serial_println (CHR 0x0A # ''Retrying...''), Serial_println (CHR 0x0A # ''Retrying...'')]"
proof -
  let ?E = "server_answers (\<lambda>k. 500)"
  let ?run0 = "send_data_max_attempts ?E ''{}'' 3 (start_world 0)"
  let ?run1 = "send_data_max_attempts ?E ''{}'' 3 (start_world 1)"
  have a: "\<forall>k. sos_mode_returns_at ?E k" and b: "\<forall>k. is_bad_http_code (https_POST_at ?E k)"
    and c: "T1C (start_world 0) = 0 \<and> (\<forall>k. https_begin_at ?E k)"
    by (simp_all add: env_defs is_bad_http_code_def start_world_def)
  have rs: "returned (new_events (start_world 0) (world_of ?run0)) = [500, 500, 500]"
    by (simp add: run_defs)
  have s3: "count_ev (\<lambda>e. e = Sos_mode) (new_events (start_world 1) (world_of ?run1)) = 3"
    by (simp add: run_defs)
  have m: "max 1 (unat (3 :: 8 word)) = 3"
    by simp
  from send_data_retries_exhausted [OF a b, of "''{}''" 3 "start_world 1"] m
  have own: "outside_calls False (new_events (start_world 1) (world_of ?run1))
      = [Serial_println (CHR 0x0A # ''Retrying...''), Serial_println (CHR 0x0A # ''Retrying...'')]"
    by (simp add: numeral_2_eq_2)
  from send_data_retries_exhausted [OF a b, of "''{}''" 3 "start_world 0"] m c
  have "returns ?run0"
    and "count_ev is_Enter (new_events (start_world 0) (world_of ?run0)) = 3"
    and "count_ev (\<lambda>e. e = Sos_mode) (new_events (start_world 0) (world_of ?run0)) = 0"
    by simp_all
  with rs s3 own show ?thesis
    by blast
qed

text \<open>
  C6 as stated fails for \<^verbatim>\<open>max_attempts = 0\<close>: the only call returns 500, and the
  function returns after one single-shot call, not after \<^verbatim>\<open>max_attempts\<close> calls.
\<close>

theorem send_data_exhausted_zero_max_attempts:
  "returned (trace (world_of
      (send_data_max_attempts (server_answers (\<lambda>k. 500)) ''{}'' 0 (start_world 0)))) = [500]
   \<and> count_ev is_Enter (trace (world_of
      (send_data_max_attempts (server_answers (\<lambda>k. 500)) ''{}'' 0 (start_world 0)))) = 1
   \<and> count_ev is_Enter (trace (world_of
      (send_data_max_attempts (server_answers (\<lambda>k. 500)) ''{}'' 0 (start_world 0))))
      \<noteq> unat (0 :: 8 word)"
  by (simp add: run_defs)

text \<open>
  C9. The sentinel \<open>-1\<close> is a bad status, so the loop retries it like any other bad
  status while \<^verbatim>\<open>attempts < max_attempts\<close>: it logs and calls the single-shot sender
  again. In particular, when the first call cannot open the connection and control
  comes back from \<^verbatim>\<open>sos_mode\<close>, the first status is \<open>-1\<close> and, for \<^verbatim>\<open>max_attempts\<close>
  above 1, a second single-shot call is made.
\<close>

theorem sentinel_is_retried:
  "is_bad_http_code (- 1)
   \<and> (a < m \<longrightarrow>
        send_data_loop E p m (- 1) a w
          = (case send_data E p (emit (Serial_println (CHR 0x0A # ''Retrying...'')) w) of
               Hangs wh \<Rightarrow> Hangs wh
             | Returns c w2 \<Rightarrow> send_data_loop E p m c (a + 1) w2))
   \<and> (\<not> https_begin_at E (count_ev is_begin (trace w)) \<and> (\<forall>k. sos_mode_returns_at E k) \<and> 1 < m \<longrightarrow>
        hd (returned (new_events w (world_of (send_data_max_attempts E p m w)))) = - 1
        \<and> 2 \<le> count_ev is_Enter (new_events w (world_of (send_data_max_attempts E p m w))))"
proof -
  let ?r = "Serial_println (CHR 0x0A # ''Retrying...'')"
  have bad: "is_bad_http_code (- 1)"
    by (simp add: is_bad_http_code_def)
  have step: "send_data_loop E p m (- 1) a w
          = (case send_data E p (emit ?r w) of
               Hangs wh \<Rightarrow> Hangs wh
             | Returns c w2 \<Rightarrow> send_data_loop E p m c (a + 1) w2)"
    if "a < m" for a w
    using that bad by (subst send_data_loop.simps) simp
  have retry: "hd (returned (new_events w (world_of (send_data_max_attempts E p m w)))) = - 1
        \<and> 2 \<le> count_ev is_Enter (new_events w (world_of (send_data_max_attempts E p m w)))"
    if fails: "\<not> https_begin_at E (count_ev is_begin (trace w))"
      and sos: "\<forall>k. sos_mode_returns_at E k" and m: "1 < m"
  proof -
    let ?evs = "Enter_send_data p
            # (if T1C w \<noteq> 0
               then [Serial_println ''ERROR: INTERRUPT WAS NOT DISABLED'', Sos_mode] else [])
            @ [New_WiFiClientSecure, New_HTTPClient, Client_setInsecure, Client_setTimeout 50000,
               Https_begin backend_url, Serial_println ''[HTTPS] Unable to connect'', Sos_mode,
               Leave_send_data (- 1)]"
    let ?w1 = "w\<lparr>trace := trace w @ ?evs\<rparr>"
    let ?w1r = "emit ?r ?w1"
    let ?out = "send_data_max_attempts E p m w"
    have sd: "send_data E p w = Returns (- 1) ?w1"
      using fails sos by (rule send_data_begin_fails)
    have out: "?out = (case send_data E p ?w1r of
               Hangs wh \<Rightarrow> Hangs wh
             | Returns c w2 \<Rightarrow> send_data_loop E p m c (1 + 1) w2)"
      using step [OF m, of ?w1] by (simp add: send_data_max_attempts_def sd)
    from send_data_trace [of E p ?w1r] obtain es1 where
      tr1: "trace (world_of (send_data E p ?w1r)) = trace ?w1r @ Enter_send_data p # es1"
      by blast
    have "\<exists>es2. trace (world_of ?out) = trace (world_of (send_data E p ?w1r)) @ es2"
    proof (cases "send_data E p ?w1r")
      case (Hangs wh)
      then show ?thesis
        unfolding out by simp
    next
      case (Returns c w2)
      with send_data_loop_trace [of E p m c "1 + 1" w2] show ?thesis
        unfolding out by auto
    qed
    then obtain es2 where "trace (world_of ?out) = trace (world_of (send_data E p ?w1r)) @ es2"
      by blast
    with tr1 have "trace (world_of ?out) = trace w @ (?evs @ ?r # Enter_send_data p # es1 @ es2)"
      by (simp add: trace_emit)
    then have new: "new_events w (world_of ?out) = ?evs @ ?r # Enter_send_data p # es1 @ es2"
      by (rule new_events_append)
    show ?thesis
      unfolding new by (simp add: returned_append count_ev_append count_ev_Cons count_ev_Nil)
  qed
  from bad step retry show ?thesis
    by blast
qed

text \<open>
  The theorem at a server that cannot be reached, with \<^verbatim>\<open>max_attempts = 2\<close>: both calls
  return \<open>-1\<close>.
\<close>

theorem sentinel_is_retried_witness:
  "(1 :: 8 word) < 2
   \<and> \<not> https_begin_at (unreachable (server_answers (\<lambda>k. 200))) (count_ev is_begin (trace (start_world 0)))
   \<and> returned (new_events (start_world 0) (world_of
        (send_data_max_attempts (unreachable (server_answers (\<lambda>k. 200))) ''{}'' 2 (start_world 0))))
      = [- 1, - 1]
   \<and> hd (returned (new_events (start_world 0) (world_of
        (send_data_max_attempts (unreachable (server_answers (\<lambda>k. 200))) ''{}'' 2 (start_world 0))))) = - 1
   \<and> 2 \<le> count_ev is_Enter (new_events (start_world 0) (world_of
        (send_data_max_attempts (unreachable (server_answers (\<lambda>k. 200))) ''{}'' 2 (start_world 0))))"
proof -
  let ?E = "unreachable (server_answers (\<lambda>k. 200))"
  have m: "(1 :: 8 word) < 2"
    by simp
  have b: "\<not> https_begin_at ?E (count_ev is_begin (trace (start_world 0)))"
    and s: "\<forall>k. sos_mode_returns_at ?E k"
    by (simp_all add: env_defs)
  have rs: "returned (new_events (start_world 0) (world_of
        (send_data_max_attempts ?E ''{}'' 2 (start_world 0)))) = [- 1, - 1]"
    by (simp add: run_defs unreachable_def)
  from sentinel_is_retried [of 1 2 ?E "''{}''" "start_world 0"] m b s
  have "hd (returned (new_events (start_world 0) (world_of
        (send_data_max_attempts ?E ''{}'' 2 (start_world 0))))) = - 1
    \<and> 2 \<le> count_ev is_Enter (new_events (start_world 0) (world_of
        (send_data_max_attempts ?E ''{}'' 2 (start_world 0))))"
    by blast
  with m b rs show ?thesis
    by blast
qed

section \<open>Telemetry sender: the single-shot sender\<close>

text \<open>
  C5, as the code has it. If \<^verbatim>\<open>https.begin\<close> fails, the single-shot \<^verbatim>\<open>send_data\<close> issues
  no POST and invokes \<^verbatim>\<open>sos_mode\<close>. It returns if and only if control comes back from
  every call of \<^verbatim>\<open>sos_mode\<close> it makes (one for the interrupt flag when that is set, one
  for the failed connection), and then it returns the sentinel \<open>-1\<close>, having done
  nothing else than constructing the client, trying to open the connection, logging
  and signalling the error. With a \<^verbatim>\<open>sos_mode\<close> that keeps control it does not return.
\<close>

theorem send_data_connect_failure:
  assumes "\<not> https_begin_at E (count_ev is_begin (trace w))"
  shows "count_ev is_POST (new_events w (world_of (send_data E p w))) = 0
    \<and> 1 \<le> count_ev (\<lambda>e. e = Sos_mode) (new_events w (world_of (send_data E p w)))
    \<and> returns (send_data E p w)
        = ((T1C w = 0 \<or> sos_mode_returns_at E (count_ev (\<lambda>e. e = Sos_mode) (trace w)))
           \<and> sos_mode_returns_at E
               (count_ev (\<lambda>e. e = Sos_mode) (trace w) + (if T1C w = 0 then 0 else 1)))
    \<and> (returns (send_data E p w) \<longrightarrow>
         send_data E p w = Returns (- 1)
           (w\<lparr>trace := trace w @
              (Enter_send_data p
               # (if T1C w \<noteq> 0
                  then [Serial_println ''ERROR: INTERRUPT WAS NOT DISABLED'', Sos_mode] else [])
               @ [New_WiFiClientSecure, New_HTTPClient, Client_setInsecure, Client_setTimeout 50000,
                  Https_begin backend_url, Serial_println ''[HTTPS] Unable to connect'', Sos_mode,
                  Leave_send_data (- 1)])\<rparr>))
    \<and> \<not> returns (send_data (sos_blocks E) p w)"
proof -
  have post: "count_ev is_POST (new_events w (world_of (send_data E p w))) = 0"
    using assms
    by (simp add: send_data_def sos_mode_def https_begin_def Let_def ev_simps new_events_def)
  have sos: "1 \<le> count_ev (\<lambda>e. e = Sos_mode) (new_events w (world_of (send_data E p w)))"
    using assms
    by (simp add: send_data_def sos_mode_def https_begin_def Let_def ev_simps new_events_def)
  have ret: "returns (send_data E p w)
        = ((T1C w = 0 \<or> sos_mode_returns_at E (count_ev (\<lambda>e. e = Sos_mode) (trace w)))
           \<and> sos_mode_returns_at E
               (count_ev (\<lambda>e. e = Sos_mode) (trace w) + (if T1C w = 0 then 0 else 1)))"
    using assms
    by (simp add: send_data_def sos_mode_def https_begin_def Let_def ev_simps)
  have val: "send_data E p w = Returns (- 1)
           (w\<lparr>trace := trace w @
              (Enter_send_data p
               # (if T1C w \<noteq> 0
                  then [Serial_println ''ERROR: INTERRUPT WAS NOT DISABLED'', Sos_mode] else [])
               @ [New_WiFiClientSecure, New_HTTPClient, Client_setInsecure, Client_setTimeout 50000,
                  Https_begin backend_url, Serial_println ''[HTTPS] Unable to connect'', Sos_mode,
                  Leave_send_data (- 1)])\<rparr>)"
    if "returns (send_data E p w)"
    using assms that
    by (simp add: send_data_def sos_mode_def https_begin_def Let_def ev_simps emit_def
        split: if_splits)
  have blocks: "\<not> returns (send_data (sos_blocks E) p w)"
    using assms
    by (simp add: send_data_def sos_mode_def https_begin_def sos_blocks_def Let_def ev_simps)
  from post sos ret val blocks show ?thesis
    by blast
qed

text \<open>
  The theorem at a server that cannot be reached, with the interrupt flag clear and a
  \<^verbatim>\<open>sos_mode\<close> that gives control back: the sender returns \<open>-1\<close>.
\<close>

theorem send_data_connect_failure_witness:
  "\<not> https_begin_at (unreachable (server_answers (\<lambda>k. 200))) (count_ev is_begin (trace (start_world 0)))
   \<and> returns (send_data (unreachable (server_answers (\<lambda>k. 200))) ''{}'' (start_world 0))
   \<and> send_data (unreachable (server_answers (\<lambda>k. 200))) ''{}'' (start_world 0)
       = Returns (- 1)
           \<lparr>T1C = 0,
            trace = [Enter_send_data ''{}'', New_WiFiClientSecure, New_HTTPClient, Client_setInsecure,
                     Client_setTimeout 50000, Https_begin backend_url,
                     Serial_println ''[HTTPS] Unable to connect'', Sos_mode, Leave_send_data (- 1)]\<rparr>
   \<and> count_ev is_POST (new_events (start_world 0)
        (world_of (send_data (unreachable (server_answers (\<lambda>k. 200))) ''{}'' (start_world 0)))) = 0"
proof -
  let ?E = "unreachable (server_answers (\<lambda>k. 200))"
  have b: "\<not> https_begin_at ?E (count_ev is_begin (trace (start_world 0)))"
    and s: "\<forall>k. sos_mode_returns_at ?E k"
    and t: "T1C (start_world 0) = 0"
    by (simp_all add: env_defs start_world_def)
  note inst = send_data_connect_failure [OF b, of "''{}''"]
  from inst s t have r: "returns (send_data ?E ''{}'' (start_world 0))"
    by simp
  with inst have "send_data ?E ''{}'' (start_world 0) = Returns (- 1)
           ((start_world 0)\<lparr>trace := trace (start_world 0) @
              (Enter_send_data ''{}''
               # (if T1C (start_world 0) \<noteq> 0
                  then [Serial_println ''ERROR: INTERRUPT WAS NOT DISABLED'', Sos_mode] else [])
               @ [New_WiFiClientSecure, New_HTTPClient, Client_setInsecure, Client_setTimeout 50000,
                  Https_begin backend_url, Serial_println ''[HTTPS] Unable to connect'', Sos_mode,
                  Leave_send_data (- 1)])\<rparr>)"
    by blast
  moreover from inst
  have "count_ev is_POST (new_events (start_world 0) (world_of (send_data ?E ''{}'' (start_world 0)))) = 0"
    by blast
  ultimately show ?thesis
    using b r by (simp add: start_world_def)
qed

text \<open>
  C5 as stated fails when \<^verbatim>\<open>sos_mode\<close> keeps control: the connection cannot be opened,
  \<^verbatim>\<open>sos_mode\<close> is invoked, and the sender never returns, so it does not return \<open>-1\<close>.
\<close>

theorem send_data_connect_failure_sos_keeps_control:
  "\<not> https_begin_at (sos_blocks (unreachable (server_answers (\<lambda>k. 200))))
        (count_ev is_begin (trace (start_world 0)))
   \<and> send_data (sos_blocks (unreachable (server_answers (\<lambda>k. 200)))) ''{}'' (start_world 0)
       = Hangs
           \<lparr>T1C = 0,
            trace = [Enter_send_data ''{}'', New_WiFiClientSecure, New_HTTPClient, Client_setInsecure,
                     Client_setTimeout 50000, Https_begin backend_url,
                     Serial_println ''[HTTPS] Unable to connect'', Sos_mode]\<rparr>
   \<and> \<not> returns (send_data (sos_blocks (unreachable (server_answers (\<lambda>k. 200)))) ''{}'' (start_world 0))"
  by (simp add: run_defs env_defs)

text \<open>
  C2. If \<^verbatim>\<open>T1C\<close> is not zero at entry, the single-shot \<^verbatim>\<open>send_data\<close> logs the error and
  invokes \<^verbatim>\<open>sos_mode\<close> before anything else, whatever \<^verbatim>\<open>sos_mode\<close> does. With \<^verbatim>\<open>sos_mode\<close>
  keeping control, these are the only things it does: no client is constructed, and
  there is no \<^verbatim>\<open>https.begin\<close> and no POST.
\<close>

theorem send_data_interrupt_not_disabled:
  assumes "T1C w \<noteq> 0"
  shows "send_data (sos_blocks E) p w
        = Hangs (w\<lparr>trace := trace w @
            [Enter_send_data p, Serial_println ''ERROR: INTERRUPT WAS NOT DISABLED'', Sos_mode]\<rparr>)
    \<and> count_ev (\<lambda>e. e = Sos_mode) (new_events w (world_of (send_data (sos_blocks E) p w))) = 1
    \<and> count_ev (\<lambda>e. e = New_WiFiClientSecure) (new_events w (world_of (send_data (sos_blocks E) p w))) = 0
    \<and> count_ev (\<lambda>e. e = New_HTTPClient) (new_events w (world_of (send_data (sos_blocks E) p w))) = 0
    \<and> count_ev is_begin (new_events w (world_of (send_data (sos_blocks E) p w))) = 0
    \<and> count_ev is_POST (new_events w (world_of (send_data (sos_blocks E) p w))) = 0
    \<and> take 3 (new_events w (world_of (send_data E p w)))
        = [Enter_send_data p, Serial_println ''ERROR: INTERRUPT WAS NOT DISABLED'', Sos_mode]"
proof -
  let ?evs = "[Enter_send_data p, Serial_println ''ERROR: INTERRUPT WAS NOT DISABLED'', Sos_mode]"
  have hang: "send_data (sos_blocks E) p w = Hangs (w\<lparr>trace := trace w @ ?evs\<rparr>)"
    using assms
    by (simp add: send_data_def sos_mode_def sos_blocks_def Let_def ev_simps emit_def)
  have new: "new_events w (world_of (send_data (sos_blocks E) p w)) = ?evs"
    unfolding hang by (simp add: new_events_def)
  have first: "take 3 (new_events w (world_of (send_data E p w))) = ?evs"
    using assms
    by (simp add: send_data_def sos_mode_def https_begin_def https_POST_def https_getString_def
        Let_def ev_simps new_events_def)
  show ?thesis
    unfolding new using hang first by (simp add: count_ev_Cons count_ev_Nil)
qed

text \<open>The theorem with the flag set to 1 and a server that would answer 200.\<close>

theorem send_data_interrupt_not_disabled_witness:
  "T1C (start_world 1) \<noteq> 0
   \<and> send_data (sos_blocks (server_answers (\<lambda>k. 200))) ''{}'' (start_world 1)
       = Hangs \<lparr>T1C = 1,
                trace = [Enter_send_data ''{}'',
                         Serial_println ''ERROR: INTERRUPT WAS NOT DISABLED'', Sos_mode]\<rparr>
   \<and> count_ev is_begin (new_events (start_world 1)
        (world_of (send_data (sos_blocks (server_answers (\<lambda>k. 200))) ''{}'' (start_world 1)))) = 0
   \<and> count_ev is_POST (new_events (start_world 1)
        (world_of (send_data (sos_blocks (server_answers (\<lambda>k. 200))) ''{}'' (start_world 1)))) = 0"
proof -
  have t: "T1C (start_world 1) \<noteq> 0"
    by (simp add: start_world_def)
  let ?run = "send_data (sos_blocks (server_answers (\<lambda>k. 200))) ''{}'' (start_world 1)"
  note inst = send_data_interrupt_not_disabled [OF t, of "server_answers (\<lambda>k. 200)" "''{}''"]
  from inst have "?run = Hangs ((start_world 1)\<lparr>trace := trace (start_world 1) @
            [Enter_send_data ''{}'', Serial_println ''ERROR: INTERRUPT WAS NOT DISABLED'', Sos_mode]\<rparr>)"
    by blast
  then have 1: "?run = Hangs \<lparr>T1C = 1,
                trace = [Enter_send_data ''{}'',
                         Serial_println ''ERROR: INTERRUPT WAS NOT DISABLED'', Sos_mode]\<rparr>"
    by (simp add: start_world_def)
  from inst have 2: "count_ev is_begin (new_events (start_world 1) (world_of ?run)) = 0"
    and 3: "count_ev is_POST (new_events (start_world 1) (world_of ?run)) = 0"
    by blast+
  from t 1 2 3 show ?thesis
    by blast
qed

end
